theory Spec2Isabelle
  imports Complex_Main
begin

section \<open>The arithmetic of C++ \<open>double\<close>\<close>

text \<open>
  vtkdiff computes with C++ \<open>double\<close>, the IEEE 754 binary64 format.  A value is a finite
  number, one of the two infinities, or a NaN.  The model keeps a finite value as the real
  number it denotes; the two zeros are one value \<open>Fin 0\<close> and all NaNs are one value
  \<open>NaN\<close>.  The program never divides by a zero and never looks at the sign of a zero or at
  the payload of a NaN (it only adds, subtracts, multiplies, divides, compares, and takes
  absolute values and square roots), so nothing it decides is lost by that.

  Every arithmetic operation returns the exact result rounded to the nearest binary64
  value, ties to even (\<open>round64\<close>): 53 bits of precision, exponents from \<open>-1022\<close> to
  \<open>1023\<close>, gradual underflow, overflow to an infinity.  Each operation of the source is
  rounded on its own: a product and the sum that follows it are not fused.
\<close>

datatype double = Fin real | PInf | NInf | NaN

definition pow2 :: "int \<Rightarrow> real" where
  "pow2 e = (if 0 \<le> e then 2 ^ nat e else 1 / 2 ^ nat (- e))"

text \<open>
  Binary search for the exponent of a positive number \<open>a\<close>: the result \<open>e\<close> has
  \<open>pow2 e \<le> a < pow2 (e + 1)\<close> when \<open>pow2 lo \<le> a < pow2 hi\<close>, and is \<open>lo\<close> when
  \<open>a < pow2 lo\<close>.
\<close>

fun find_exp :: "nat \<Rightarrow> int \<Rightarrow> int \<Rightarrow> real \<Rightarrow> int" where
  "find_exp 0 lo hi a = lo"
| "find_exp (Suc k) lo hi a =
     (let mid = (lo + hi) div 2
      in if pow2 mid \<le> a then find_exp k mid hi a else find_exp k lo mid a)"

text \<open>
  The exponent that fixes the spacing of binary64 values around \<open>a\<close>: \<open>\<lfloor>log\<^sub>2 a\<rfloor>\<close>, but
  \<open>-1022\<close> for the subnormal range and \<open>1023\<close> at most.
\<close>

definition expo :: "real \<Rightarrow> int" where
  "expo a = find_exp 11 (- 1022) 1024 a"

text \<open>Rounding a non-negative real to the nearest integer, ties to the even one.\<close>

definition rne :: "real \<Rightarrow> int" where
  "rne r =
     (let f = \<lfloor>r\<rfloor>; d = r - of_int f
      in if d < 1 / 2 then f
         else if 1 / 2 < d then f + 1
         else if even f then f else f + 1)"

definition round64 :: "real \<Rightarrow> double" where
  "round64 x =
     (let a = \<bar>x\<bar>;
          u = pow2 (expo a - 52);
          v = of_int (rne (a / u)) * u
      in if pow2 1024 \<le> v then (if x < 0 then NInf else PInf)
         else Fin (if x < 0 then - v else v))"

subsection \<open>Operations\<close>

fun dneg :: "double \<Rightarrow> double" where
  "dneg (Fin a) = Fin (- a)"
| "dneg PInf = NInf"
| "dneg NInf = PInf"
| "dneg NaN = NaN"

text \<open>\<open>std::abs\<close> on a double.\<close>

fun dabs :: "double \<Rightarrow> double" where
  "dabs (Fin a) = Fin \<bar>a\<bar>"
| "dabs PInf = PInf"
| "dabs NInf = PInf"
| "dabs NaN = NaN"

fun dadd :: "double \<Rightarrow> double \<Rightarrow> double" where
  "dadd NaN y = NaN"
| "dadd x NaN = NaN"
| "dadd PInf NInf = NaN"
| "dadd NInf PInf = NaN"
| "dadd PInf y = PInf"
| "dadd x PInf = PInf"
| "dadd NInf y = NInf"
| "dadd x NInf = NInf"
| "dadd (Fin a) (Fin b) = round64 (a + b)"

definition dsub :: "double \<Rightarrow> double \<Rightarrow> double" where
  "dsub x y = dadd x (dneg y)"

text \<open>The sign of a non-NaN value: \<open>-1\<close>, \<open>0\<close> or \<open>1\<close>.\<close>

fun dsgn :: "double \<Rightarrow> int" where
  "dsgn (Fin a) = (if a < 0 then - 1 else if a = 0 then 0 else 1)"
| "dsgn PInf = 1"
| "dsgn NInf = - 1"
| "dsgn NaN = 0"

definition signed_inf :: "int \<Rightarrow> double" where
  "signed_inf s = (if s < 0 then NInf else PInf)"

fun dmul :: "double \<Rightarrow> double \<Rightarrow> double" where
  "dmul NaN y = NaN"
| "dmul x NaN = NaN"
| "dmul (Fin a) (Fin b) = round64 (a * b)"
| "dmul x y =
     (if dsgn x = 0 \<or> dsgn y = 0 then NaN else signed_inf (dsgn x * dsgn y))"

text \<open>
  Division.  A zero divisor is taken as \<open>+0\<close>; the program never reaches that case
  (lemma \<open>rel_err_divisor_nonzero\<close> below).
\<close>

fun ddiv :: "double \<Rightarrow> double \<Rightarrow> double" where
  "ddiv NaN y = NaN"
| "ddiv x NaN = NaN"
| "ddiv (Fin a) (Fin b) =
     (if b = 0 then (if a = 0 then NaN else signed_inf (dsgn (Fin a)))
      else round64 (a / b))"
| "ddiv (Fin a) y = Fin 0"
| "ddiv x (Fin b) = signed_inf (dsgn x * (if b < 0 then - 1 else 1))"
| "ddiv x y = NaN"

text \<open>\<open>std::sqrt\<close>, correctly rounded.\<close>

fun dsqrt :: "double \<Rightarrow> double" where
  "dsqrt (Fin a) = (if a < 0 then NaN else round64 (sqrt a))"
| "dsqrt PInf = PInf"
| "dsqrt NInf = NaN"
| "dsqrt NaN = NaN"

text \<open>The comparisons \<open><\<close> and \<open>==\<close>; every comparison with a NaN is false.\<close>

fun dlt :: "double \<Rightarrow> double \<Rightarrow> bool" where
  "dlt NaN y = False"
| "dlt x NaN = False"
| "dlt (Fin a) (Fin b) = (a < b)"
| "dlt x NInf = False"
| "dlt PInf y = False"
| "dlt NInf y = True"
| "dlt x PInf = True"

fun deq :: "double \<Rightarrow> double \<Rightarrow> bool" where
  "deq NaN y = False"
| "deq x NaN = False"
| "deq x y = (x = y)"

text \<open>\<open>x > y\<close> is \<open>y < x\<close>.\<close>

definition dgt :: "double \<Rightarrow> double \<Rightarrow> bool" where
  "dgt x y = dlt y x"

definition dle :: "double \<Rightarrow> double \<Rightarrow> bool" where
  "dle x y = (dlt x y \<or> deq x y)"

text \<open>\<open>std::max(a, b)\<close> is \<open>(a < b) ? b : a\<close> and \<open>std::min(a, b)\<close> is \<open>(b < a) ? b : a\<close>.\<close>

definition std_max :: "double \<Rightarrow> double \<Rightarrow> double" where
  "std_max a b = (if dlt a b then b else a)"

definition std_min :: "double \<Rightarrow> double \<Rightarrow> double" where
  "std_min a b = (if dlt b a then b else a)"

section \<open>The program\<close>

subsection \<open>Data\<close>

text \<open>The command line, as \<open>parseCommandLine\<close> returns it.\<close>

record Args =
  quiet :: bool
  verbose :: bool
  abs_err_thr :: double
  rel_err_thr :: double
  vtk_input_a :: string
  vtk_input_b :: string
  data_array_a :: string
  data_array_b :: string

text \<open>
  A \<open>vtkDataArray\<close>, seen through the five member functions \<open>main\<close> calls.  The two
  counts are natural numbers; \<open>GetComponent\<close> converts a component to \<open>double\<close> and
  is read only at indices below the counts.
\<close>

record vtkDataArray =
  IsNumeric :: bool
  GetDataTypeAsString :: string
  GetNumberOfTuples :: nat
  GetNumberOfComponents :: nat
  GetComponent :: "nat \<Rightarrow> nat \<Rightarrow> double"

text \<open>
  What is written to \<open>std::cout\<close> and \<open>std::cerr\<close>: the sequence of values given to
  \<open>operator<<\<close>.  How a number is laid out as text (\<open>std::scientific\<close>,
  \<open>std::setprecision\<close>, \<open>std::setw\<close>) is not modelled.
\<close>

datatype token =
  Text string
  | Number double
  | Vector "double list"
  | Count nat

datatype exit_status = EXIT_SUCCESS | EXIT_FAILURE

record result =
  status :: exit_status
  stdout :: "token list"
  stderr :: "token list"

text \<open>Dereferencing the past-the-end iterator has no defined behaviour.\<close>

datatype fault = Undefined_behaviour

text \<open>The six vectors of norms and the standard output written so far.\<close>

record state =
  abs_err_norm_l1 :: "double list"
  abs_err_norm_2_2 :: "double list"
  abs_err_norm_max :: "double list"
  rel_err_norm_l1 :: "double list"
  rel_err_norm_2_2 :: "double list"
  rel_err_norm_max :: "double list"
  cout :: "token list"

subsection \<open>Helpers\<close>

definition stringEndsWith :: "string \<Rightarrow> string \<Rightarrow> bool" where
  "stringEndsWith str ending =
     (if length str < length ending then False
      else let string_end_length = length str - length ending
           in take (length ending) (drop string_end_length str) = ending)"

text \<open>
  \<open>*std::max_element(first, last)\<close>: the first largest element under \<open><\<close>; on an empty
  range the iterator returned is \<open>last\<close>, which must not be dereferenced.
\<close>

fun max_element_from :: "double \<Rightarrow> double list \<Rightarrow> double" where
  "max_element_from largest [] = largest"
| "max_element_from largest (x # xs) =
     max_element_from (if dlt largest x then x else largest) xs"

definition max_element :: "double list \<Rightarrow> double option" where
  "max_element v = (case v of [] \<Rightarrow> None | x # xs \<Rightarrow> Some (max_element_from x xs))"

subsection \<open>The scan\<close>

text \<open>The absolute and the relative error of one pair of components (lines 368 and 376--390).\<close>

definition abs_err :: "double \<Rightarrow> double \<Rightarrow> double" where
  "abs_err a_comp b_comp = dabs (dsub a_comp b_comp)"

definition rel_err :: "double \<Rightarrow> double \<Rightarrow> double" where
  "rel_err a_comp b_comp =
     (if deq (abs_err a_comp b_comp) (Fin 0) then Fin 0
      else if deq a_comp (Fin 0) \<or> deq b_comp (Fin 0) then PInf
      else ddiv (abs_err a_comp b_comp) (std_min (dabs a_comp) (dabs b_comp)))"

text \<open>The line printed for one element in verbose mode (lines 400--405).\<close>

definition diagnostic :: "nat \<Rightarrow> nat \<Rightarrow> double \<Rightarrow> double \<Rightarrow> token list" where
  "diagnostic tuple_idx component_idx ae re =
     [Text ''tuple: '', Count tuple_idx, Text ''component: '', Count component_idx,
      Text '': abs err = '', Number ae, Text '', rel err = '', Number re, Text ''\<newline>'']"

text \<open>The body of the inner loop (lines 366--406).\<close>

definition component_body ::
  "Args \<Rightarrow> vtkDataArray \<Rightarrow> vtkDataArray \<Rightarrow> nat \<Rightarrow> nat \<Rightarrow> state \<Rightarrow> state" where
  "component_body args a b tuple_idx component_idx s =
     (let a_comp = GetComponent a tuple_idx component_idx;
          b_comp = GetComponent b tuple_idx component_idx;
          ae = abs_err a_comp b_comp;
          re = rel_err a_comp b_comp;
          s' = s\<lparr>
            abs_err_norm_l1 := (abs_err_norm_l1 s)
              [component_idx := dadd (abs_err_norm_l1 s ! component_idx) ae],
            abs_err_norm_2_2 := (abs_err_norm_2_2 s)
              [component_idx := dadd (abs_err_norm_2_2 s ! component_idx) (dmul ae ae)],
            abs_err_norm_max := (abs_err_norm_max s)
              [component_idx := std_max (abs_err_norm_max s ! component_idx) ae],
            rel_err_norm_l1 := (rel_err_norm_l1 s)
              [component_idx := dadd (rel_err_norm_l1 s ! component_idx) re],
            rel_err_norm_2_2 := (rel_err_norm_2_2 s)
              [component_idx := dadd (rel_err_norm_2_2 s ! component_idx) (dmul re re)],
            rel_err_norm_max := (rel_err_norm_max s)
              [component_idx := std_max (rel_err_norm_max s ! component_idx) re]\<rparr>
      in if dgt ae (abs_err_thr args) \<and> dgt re (rel_err_thr args) \<and> verbose args
         then s'\<lparr>cout := cout s' @ diagnostic tuple_idx component_idx ae re\<rparr>
         else s')"

text \<open>The inner loop (lines 363--407), from \<open>component_idx\<close> on.\<close>

function component_loop ::
  "Args \<Rightarrow> vtkDataArray \<Rightarrow> vtkDataArray \<Rightarrow> nat \<Rightarrow> nat \<Rightarrow> nat \<Rightarrow> state \<Rightarrow> state" where
  "component_loop args a b num_components tuple_idx component_idx s =
     (if component_idx < num_components
      then component_loop args a b num_components tuple_idx (component_idx + 1)
             (component_body args a b tuple_idx component_idx s)
      else s)"
  by pat_completeness auto
termination
  by (relation "measure (\<lambda>(args, a, b, num_components, tuple_idx, component_idx, s).
        num_components - component_idx)") auto

declare component_loop.simps [simp del]

text \<open>The largest value of a C++ \<open>int\<close>, 32 bits wide.\<close>

definition INT_MAX :: nat where
  "INT_MAX = 2147483647"

text \<open>
  The outer loop (lines 361--408), from \<open>tuple_idx\<close> on.  In the source \<open>tuple_idx\<close> is
  an \<open>int\<close> (\<open>auto tuple_idx = 0\<close>) that counts up to \<open>num_tuples\<close>, a \<open>vtkIdType\<close>,
  which is 64 bits wide by default: with more than \<open>INT_MAX\<close> tuples \<open>++tuple_idx\<close>
  overflows, and that has no defined behaviour.  The function below is the loop of the
  source for \<open>num_tuples \<le> INT_MAX\<close> only; every property of the scan of two arbitrary
  arrays is stated under that bound.  (\<open>component_idx\<close> is an \<open>int\<close> too, but so is
  \<open>num_components\<close>, and a counter that stays below a bound of its own type does not
  overflow.)
\<close>

function tuple_loop ::
  "Args \<Rightarrow> vtkDataArray \<Rightarrow> vtkDataArray \<Rightarrow> nat \<Rightarrow> nat \<Rightarrow> nat \<Rightarrow> state \<Rightarrow> state" where
  "tuple_loop args a b num_tuples num_components tuple_idx s =
     (if tuple_idx < num_tuples
      then tuple_loop args a b num_tuples num_components (tuple_idx + 1)
             (component_loop args a b num_components tuple_idx 0 s)
      else s)"
  by pat_completeness auto
termination
  by (relation "measure (\<lambda>(args, a, b, num_tuples, num_components, tuple_idx, s).
        num_tuples - tuple_idx)") auto

declare tuple_loop.simps [simp del]

text \<open>
  The vectors as they are created (lines 352--359): \<open>num_components\<close> zeros each.
  \<open>cout\<close> collects what the scan itself prints.
\<close>

definition initial_state :: "nat \<Rightarrow> state" where
  "initial_state num_components =
     \<lparr>abs_err_norm_l1 = replicate num_components (Fin 0),
      abs_err_norm_2_2 = replicate num_components (Fin 0),
      abs_err_norm_max = replicate num_components (Fin 0),
      rel_err_norm_l1 = replicate num_components (Fin 0),
      rel_err_norm_2_2 = replicate num_components (Fin 0),
      rel_err_norm_max = replicate num_components (Fin 0),
      cout = []\<rparr>"

text \<open>
  The scan of two arrays with the shape of \<open>a\<close> (lines 352--408), for
  \<open>GetNumberOfTuples a \<le> INT_MAX\<close>.
\<close>

definition scan :: "Args \<Rightarrow> vtkDataArray \<Rightarrow> vtkDataArray \<Rightarrow> state" where
  "scan args a b =
     tuple_loop args a b (GetNumberOfTuples a) (GetNumberOfComponents a) 0
       (initial_state (GetNumberOfComponents a))"

subsection \<open>Report and verdict\<close>

text \<open>
  The block printed unless \<open>--quiet\<close> is given (lines 413--437).  \<open>abs_err_norm_2\<close> and
  \<open>rel_err_norm_2\<close> are the temporaries of the source; the line labelled
  \<open>rel l2-norm\<close> is given \<open>rel_err_norm_2_2\<close>, as in the source.
\<close>

definition error_information :: "state \<Rightarrow> token list" where
  "error_information s =
     (let abs_err_norm_2 = map dsqrt (abs_err_norm_2_2 s);
          rel_err_norm_2 = map dsqrt (rel_err_norm_2_2 s)
      in [Text ''Computed difference between data arrays:\<newline>'',
          Text ''abs l1 norm      = '', Vector (abs_err_norm_l1 s), Text ''\<newline>'',
          Text ''abs l2-norm^2    = '', Vector (abs_err_norm_2_2 s), Text ''\<newline>'',
          Text ''abs l2-norm      = '', Vector abs_err_norm_2, Text ''\<newline>'',
          Text ''abs maximum norm = '', Vector (abs_err_norm_max s), Text ''\<newline>'',
          Text ''\<newline>'',
          Text ''rel l1 norm      = '', Vector (rel_err_norm_l1 s), Text ''\<newline>'',
          Text ''rel l2-norm^2    = '', Vector (rel_err_norm_2_2 s), Text ''\<newline>'',
          Text ''rel l2-norm      = '', Vector (rel_err_norm_2_2 s), Text ''\<newline>'',
          Text ''rel maximum norm = '', Vector (rel_err_norm_max s), Text ''\<newline>''])"

text \<open>
  The decision (lines 440--451): the exit status and the message printed with it.
  \<open>&&\<close> evaluates its right operand only when the left one is true.
\<close>

definition verdict :: "Args \<Rightarrow> state \<Rightarrow> fault + (exit_status \<times> token list)" where
  "verdict args s =
     (case max_element (abs_err_norm_max s) of
        None \<Rightarrow> Inl Undefined_behaviour
      | Some m_abs \<Rightarrow>
          if dgt m_abs (abs_err_thr args) then
            (case max_element (rel_err_norm_max s) of
               None \<Rightarrow> Inl Undefined_behaviour
             | Some m_rel \<Rightarrow>
                 if dgt m_rel (rel_err_thr args) then
                   Inr (EXIT_FAILURE,
                        if \<not> quiet args
                        then [Text (''Absolute and relative error (maximum norm) are larger'' @
                                    '' than the corresponding thresholds.\<newline>'')]
                        else [])
                 else Inr (EXIT_SUCCESS, []))
          else Inr (EXIT_SUCCESS, []))"

text \<open>The first message (lines 306--310).\<close>

definition comparing_message :: "Args \<Rightarrow> token list" where
  "comparing_message args =
     (if \<not> quiet args
      then [Text ''Comparing data array `'', Text (data_array_a args),
            Text ''' from file `'', Text (vtk_input_a args),
            Text ''' to data array `'', Text (data_array_b args),
            Text ''' from file `'', Text (vtk_input_b args),
            Text '''.\<newline>'']
      else [])"

text \<open>\<open>main\<close> from line 306 on, once both arrays have been read.\<close>

definition compare_arrays :: "Args \<Rightarrow> vtkDataArray \<Rightarrow> vtkDataArray \<Rightarrow> fault + result" where
  "compare_arrays args a b =
     (let out = comparing_message args
      in if \<not> IsNumeric a then
           Inr \<lparr>status = EXIT_FAILURE, stdout = out,
                stderr = [Text ''Data in data array a is not numeric:\<newline>'',
                          Text ''data type is '', Text (GetDataTypeAsString a),
                          Text ''\<newline>'']\<rparr>
         else if \<not> IsNumeric b then
           Inr \<lparr>status = EXIT_FAILURE, stdout = out,
                stderr = [Text ''Data in data array b is not numeric.\<newline>'',
                          Text ''data type is '', Text (GetDataTypeAsString b),
                          Text ''\<newline>'']\<rparr>
         else
           let num_tuples = GetNumberOfTuples a
           in if num_tuples \<noteq> GetNumberOfTuples b then
                Inr \<lparr>status = EXIT_FAILURE, stdout = out,
                     stderr = [Text ''Number of tuples differ:\<newline>'',
                               Count num_tuples, Text '' in data array a and '',
                               Count (GetNumberOfTuples b), Text '' in data array b\<newline>'']\<rparr>
              else
                let num_components = GetNumberOfComponents a
                in if num_components \<noteq> GetNumberOfComponents b then
                     Inr \<lparr>status = EXIT_FAILURE, stdout = out,
                          stderr = [Text ''Number of components differ:\<newline>'',
                                    Count num_components, Text '' in data array a and '',
                                    Count (GetNumberOfComponents b),
                                    Text '' in data array b\<newline>'']\<rparr>
                   else
                     let s = scan args a b;
                         info = (if \<not> quiet args then error_information s else [])
                     in case verdict args s of
                          Inl f \<Rightarrow> Inl f
                        | Inr (st, msg) \<Rightarrow>
                            Inr \<lparr>status = st, stdout = out @ cout s @ info @ msg,
                                 stderr = []\<rparr>)"

text \<open>
  \<open>main\<close>.  The result of \<open>readDataArraysFromFile\<close> is a parameter: \<open>None\<close> when it
  reports that reading was not successful (its own messages are not modelled), the two
  arrays otherwise.
\<close>

definition main :: "Args \<Rightarrow> (vtkDataArray \<times> vtkDataArray) option \<Rightarrow> fault + result" where
  "main args read =
     (if stringEndsWith (vtk_input_a args) ''.vtu'' then
        (case read of
           None \<Rightarrow> Inr \<lparr>status = EXIT_FAILURE, stdout = [], stderr = []\<rparr>
         | Some (a, b) \<Rightarrow> compare_arrays args a b)
      else Inr \<lparr>status = EXIT_FAILURE, stdout = [],
                stderr = [Text (''Invalid file type! '' @
                                ''Only .vtu files are supported.\<newline>'')]\<rparr>)"

section \<open>Notions used to state the properties\<close>

text \<open>
  The state after the first \<open>k\<close> passes through the body of the inner loop.  The scan
  visits the elements tuple by tuple, so pass number \<open>k\<close> (counting from 0) is at tuple
  \<open>k div num_components\<close> and component \<open>k mod num_components\<close>.
\<close>

fun state_after :: "Args \<Rightarrow> vtkDataArray \<Rightarrow> vtkDataArray \<Rightarrow> nat \<Rightarrow> state" where
  "state_after args a b 0 = initial_state (GetNumberOfComponents a)"
| "state_after args a b (Suc k) =
     component_body args a b
       (k div GetNumberOfComponents a) (k mod GetNumberOfComponents a)
       (state_after args a b k)"

text \<open>A double that is a number: neither an infinity nor a NaN.\<close>

fun is_finite :: "double \<Rightarrow> bool" where
  "is_finite (Fin a) = True"
| "is_finite x = False"

text \<open>A dataset of real numbers: every component of every tuple is finite.\<close>

definition finite_data :: "vtkDataArray \<Rightarrow> bool" where
  "finite_data a =
     (\<forall>t < GetNumberOfTuples a. \<forall>c < GetNumberOfComponents a.
        is_finite (GetComponent a t c))"

text \<open>Two numeric arrays with the same number of tuples and of components.\<close>

definition shape_compatible :: "vtkDataArray \<Rightarrow> vtkDataArray \<Rightarrow> bool" where
  "shape_compatible a b =
     (IsNumeric a \<and> IsNumeric b
      \<and> GetNumberOfTuples a = GetNumberOfTuples b
      \<and> GetNumberOfComponents a = GetNumberOfComponents b)"

text \<open>\<open>m\<close> is the maximum of the entries of \<open>v\<close>.\<close>

definition is_maximum :: "double \<Rightarrow> double list \<Rightarrow> bool" where
  "is_maximum m v = (m \<in> set v \<and> (\<forall>x \<in> set v. dle x m))"

text \<open>
  The relative error as the specification words it: zero when the absolute error
  \<open>|av - bv|\<close> is zero; infinite when it is not and \<open>av\<close> or \<open>bv\<close> is zero; the
  absolute error over the smaller of \<open>|av|\<close> and \<open>|bv|\<close> otherwise.
\<close>

definition smaller :: "double \<Rightarrow> double \<Rightarrow> double" where
  "smaller x y = (if dle x y then x else y)"

definition spec_rel_err :: "double \<Rightarrow> double \<Rightarrow> double" where
  "spec_rel_err av bv =
     (let abs_error = dabs (dsub av bv)
      in if deq abs_error (Fin 0) then Fin 0
         else if deq av (Fin 0) \<or> deq bv (Fin 0) then PInf
         else ddiv abs_error (smaller (dabs av) (dabs bv)))"

text \<open>
  What the scan is expected to print for the element at tuple \<open>t\<close>, component \<open>c\<close>: one
  line carrying \<open>t\<close>, \<open>c\<close> and the two errors when diagnostics are on and both errors
  exceed their thresholds, nothing otherwise.
\<close>

definition expected_diagnostic ::
  "Args \<Rightarrow> vtkDataArray \<Rightarrow> vtkDataArray \<Rightarrow> nat \<Rightarrow> nat \<Rightarrow> token list" where
  "expected_diagnostic args a b t c =
     (let ae = abs_err (GetComponent a t c) (GetComponent b t c);
          re = rel_err (GetComponent a t c) (GetComponent b t c)
      in if verbose args \<and> dgt ae (abs_err_thr args) \<and> dgt re (rel_err_thr args)
         then [Text ''tuple: '', Count t, Text ''component: '', Count c,
               Text '': abs err = '', Number ae, Text '', rel err = '', Number re,
               Text ''\<newline>'']
         else [])"

text \<open>The six vectors of norms of a state.\<close>

definition norm_vectors :: "state \<Rightarrow> double list list" where
  "norm_vectors s =
     [abs_err_norm_l1 s, abs_err_norm_2_2 s, abs_err_norm_max s,
      rel_err_norm_l1 s, rel_err_norm_2_2 s, rel_err_norm_max s]"

text \<open>
  \<open>b\<close> is an exact copy of \<open>a\<close>: the same type and shape, and the same value in every
  component of every tuple.
\<close>

definition exact_copy :: "vtkDataArray \<Rightarrow> vtkDataArray \<Rightarrow> bool" where
  "exact_copy a b =
     (IsNumeric b = IsNumeric a
      \<and> GetDataTypeAsString b = GetDataTypeAsString a
      \<and> GetNumberOfTuples b = GetNumberOfTuples a
      \<and> GetNumberOfComponents b = GetNumberOfComponents a
      \<and> (\<forall>t < GetNumberOfTuples a. \<forall>c < GetNumberOfComponents a.
            GetComponent b t c = GetComponent a t c))"

section \<open>Example inputs\<close>

text \<open>A numeric array of doubles with the given tuples of \<open>n\<close> components each.\<close>

definition double_array :: "nat \<Rightarrow> double list list \<Rightarrow> vtkDataArray" where
  "double_array n tuples =
     \<lparr>IsNumeric = True, GetDataTypeAsString = ''double'',
      GetNumberOfTuples = length tuples, GetNumberOfComponents = n,
      GetComponent = (\<lambda>t c. tuples ! t ! c)\<rparr>"

text \<open>
  A command line with the default thresholds, \<open>std::numeric_limits<double>::epsilon()\<close>,
  which is \<open>2\<^sup>-\<^sup>5\<^sup>2\<close>.
\<close>

definition default_args :: Args where
  "default_args =
     \<lparr>quiet = False, verbose = True,
      abs_err_thr = Fin (1 / 2 ^ 52), rel_err_thr = Fin (1 / 2 ^ 52),
      vtk_input_a = ''a.vtu'', vtk_input_b = ''b.vtu'',
      data_array_a = ''pressure'', data_array_b = ''pressure''\<rparr>"

section \<open>Properties of the arithmetic\<close>

lemma pow2_pos: "0 < pow2 e"
  by (simp add: pow2_def)

lemma rne_nonneg: "0 \<le> r \<Longrightarrow> 0 \<le> rne r"
  by (simp add: rne_def Let_def)

lemma round64_zero: "round64 0 = Fin 0"
  using pow2_pos [of 1024] by (simp add: round64_def rne_def Let_def not_le)

lemma round64_not_NaN: "round64 x \<noteq> NaN"
  by (simp add: round64_def Let_def)

text \<open>Rounding is symmetric about zero.\<close>

lemma round64_neg: "round64 (- x) = dneg (round64 x)"
  using pow2_pos [of 1024] by (cases "x = 0") (auto simp add: round64_def Let_def rne_def not_le)

lemma round64_nonneg:
  assumes "0 \<le> x"
  shows "round64 x = PInf \<or> (\<exists>y. 0 \<le> y \<and> round64 x = Fin y)"
proof -
  have "0 \<le> \<bar>x\<bar> / pow2 (expo \<bar>x\<bar> - 52)"
    using pow2_pos [of "expo \<bar>x\<bar> - 52"] by simp
  then have "0 \<le> rne (\<bar>x\<bar> / pow2 (expo \<bar>x\<bar> - 52))"
    by (rule rne_nonneg)
  then have "0 \<le> real_of_int (rne (\<bar>x\<bar> / pow2 (expo \<bar>x\<bar> - 52))) * pow2 (expo \<bar>x\<bar> - 52)"
    using pow2_pos [of "expo \<bar>x\<bar> - 52"] by simp
  with assms show ?thesis
    by (simp add: round64_def Let_def)
qed

subsection \<open>The rounding function\<close>

lemma pow2_powi: "pow2 e = 2 powi e"
  by (simp add: pow2_def power_int_def divide_simps)

lemma pow2_mono: "e \<le> e' \<Longrightarrow> pow2 e \<le> pow2 e'"
  by (simp add: pow2_powi power_int_increasing)

text \<open>The binary search finds the exponent.\<close>

lemma find_exp_bounds:
  "lo < hi \<Longrightarrow> pow2 lo \<le> a \<Longrightarrow> a < pow2 hi \<Longrightarrow> hi - lo \<le> 2 ^ k \<Longrightarrow>
   pow2 (find_exp k lo hi a) \<le> a \<and> a < pow2 (find_exp k lo hi a + 1)"
proof (induction k arbitrary: lo hi)
  case 0
  then have "hi = lo + 1" by simp
  with 0 show ?case by simp
next
  case (Suc k)
  let ?mid = "(lo + hi) div 2"
  show ?case
  proof (cases "pow2 ?mid \<le> a")
    case True
    have "?mid < hi" and "hi - ?mid \<le> 2 ^ k"
      using Suc.prems(1,4) by simp_all
    then show ?thesis
      using True Suc.IH [of ?mid hi] Suc.prems(3) by (simp add: Let_def)
  next
    case False
    then have "lo \<noteq> ?mid" using Suc.prems(2) by auto
    then have "lo < ?mid" and "?mid - lo \<le> 2 ^ k"
      using Suc.prems(1,4) by simp_all
    then show ?thesis
      using False Suc.IH [of lo ?mid] Suc.prems(2) by (simp add: Let_def)
  qed
qed

lemma find_exp_below: "a < pow2 lo \<Longrightarrow> lo \<le> hi \<Longrightarrow> find_exp k lo hi a = lo"
proof (induction k arbitrary: hi)
  case 0
  show ?case by simp
next
  case (Suc k)
  let ?mid = "(lo + hi) div 2"
  have mid: "lo \<le> ?mid" using Suc.prems(2) by simp
  then have "\<not> pow2 ?mid \<le> a"
    using pow2_mono [OF mid] Suc.prems(1) by simp
  then show ?case
    using Suc.IH [OF Suc.prems(1) mid] by (simp add: Let_def)
qed

text \<open>
  \<open>expo a\<close> is the binary exponent of a number in the normal range, and \<open>-1022\<close> for a
  number below it.
\<close>

lemma expo_normal:
  assumes "pow2 (- 1022) \<le> a" and "a < pow2 1024"
  shows "pow2 (expo a) \<le> a \<and> a < pow2 (expo a + 1)"
  unfolding expo_def using _ assms by (rule find_exp_bounds) simp_all

lemma expo_subnormal: "a < pow2 (- 1022) \<Longrightarrow> expo a = - 1022"
  unfolding expo_def by (rule find_exp_below) simp_all

text \<open>\<open>rne\<close> rounds to a nearest integer.\<close>

lemma rne_nearest: "\<bar>r - of_int (rne r)\<bar> \<le> 1 / 2"
  by (simp add: rne_def Let_def)

text \<open>
  A finite result of \<open>round64\<close> is a multiple of the spacing \<open>pow2 (expo \<bar>x\<bar> - 52)\<close> and
  lies within half that spacing of \<open>x\<close>.
\<close>

lemma round64_nearest:
  assumes "round64 x = Fin v"
  shows "\<bar>x - v\<bar> \<le> pow2 (expo \<bar>x\<bar> - 52) / 2"
    and "\<exists>n::int. v = of_int n * pow2 (expo \<bar>x\<bar> - 52)"
proof -
  let ?u = "pow2 (expo \<bar>x\<bar> - 52)"
  let ?n = "rne (\<bar>x\<bar> / ?u)"
  have u: "0 < ?u" by (rule pow2_pos)
  have v: "v = (if x < 0 then - (of_int ?n * ?u) else of_int ?n * ?u)"
    using assms by (simp add: round64_def Let_def split: if_splits)
  have "\<bar>\<bar>x\<bar> / ?u - of_int ?n\<bar> \<le> 1 / 2" by (rule rne_nearest)
  then have "\<bar>\<bar>x\<bar> / ?u - of_int ?n\<bar> * ?u \<le> 1 / 2 * ?u"
    using u by (simp add: mult_right_mono)
  then have "\<bar>(\<bar>x\<bar> / ?u - of_int ?n) * ?u\<bar> \<le> ?u / 2"
    using u by (simp add: abs_mult)
  then have le: "\<bar>\<bar>x\<bar> - of_int ?n * ?u\<bar> \<le> ?u / 2"
    using u by (simp add: left_diff_distrib)
  have "\<bar>x - v\<bar> = \<bar>\<bar>x\<bar> - of_int ?n * ?u\<bar>"
  proof (cases "x < 0")
    case True
    then have "x - v = - (\<bar>x\<bar> - of_int ?n * ?u)" using v by simp
    then show ?thesis by (simp only: abs_minus_cancel)
  next
    case False
    then show ?thesis using v by simp
  qed
  then show "\<bar>x - v\<bar> \<le> ?u / 2"
    using le by simp
  show "\<exists>n::int. v = of_int n * ?u"
  proof (cases "x < 0")
    case True
    then have "v = of_int (- ?n) * ?u" using v by simp
    then show ?thesis by blast
  next
    case False
    then show ?thesis using v by auto
  qed
qed

text \<open>A number on the grid of binary64 values around it is not changed by rounding.\<close>

lemma rne_of_int: "rne (of_int n) = n"
  by (simp add: rne_def Let_def)

lemma round64_exact:
  assumes "x = of_int n * pow2 (expo \<bar>x\<bar> - 52)" and "\<bar>x\<bar> < pow2 1024"
  shows "round64 x = Fin x"
proof -
  let ?u = "pow2 (expo \<bar>x\<bar> - 52)"
  have u: "0 < ?u" by (rule pow2_pos)
  have "\<bar>x\<bar> = of_int \<bar>n\<bar> * ?u"
    using u by (subst assms(1)) (simp add: abs_mult)
  then have "\<bar>x\<bar> / ?u = of_int \<bar>n\<bar>"
    using u by (metis nonzero_mult_div_cancel_right less_irrefl)
  then have "of_int (rne (\<bar>x\<bar> / ?u)) * ?u = \<bar>x\<bar>"
    using \<open>\<bar>x\<bar> = of_int \<bar>n\<bar> * ?u\<close> by (simp only: rne_of_int)
  then have "round64 x =
      (if pow2 1024 \<le> \<bar>x\<bar> then (if x < 0 then NInf else PInf)
       else Fin (if x < 0 then - \<bar>x\<bar> else \<bar>x\<bar>))"
    unfolding round64_def Let_def by (simp only:)
  then show ?thesis
    using assms(2) by simp
qed

subsection \<open>Some small numbers\<close>

lemma expo_one: "expo 1 = 0"
  by (simp add: expo_def eval_nat_numeral pow2_def Let_def)

lemma expo_two: "expo 2 = 1"
  by (simp add: expo_def eval_nat_numeral pow2_def Let_def)

lemma expo_four: "expo 4 = 2"
  by (simp add: expo_def eval_nat_numeral pow2_def Let_def)

lemma round64_one: "round64 1 = Fin 1"
  by (simp add: round64_def expo_one rne_def Let_def pow2_def)

lemma round64_two: "round64 2 = Fin 2"
  by (simp add: round64_def expo_two rne_def Let_def pow2_def)

lemma round64_four: "round64 4 = Fin 4"
  by (simp add: round64_def expo_four rne_def Let_def pow2_def)

lemma round64_minus_one: "round64 (- 1) = Fin (- 1)"
  by (simp add: round64_neg round64_one)

lemma round64_minus_two: "round64 (- 2) = Fin (- 2)"
  by (simp add: round64_neg round64_two)

lemmas round64_values =
  round64_zero round64_one round64_two round64_four round64_minus_one round64_minus_two

subsection \<open>Negation and subtraction\<close>

lemma dadd_commute: "dadd x y = dadd y x"
  by (cases x; cases y) (simp_all add: add.commute)

lemma dneg_dadd: "dneg (dadd x y) = dadd (dneg x) (dneg y)"
  by (cases x; cases y) (simp_all add: round64_neg [symmetric])

lemma dneg_dneg: "dneg (dneg x) = x"
  by (cases x) simp_all

lemma dabs_dneg: "dabs (dneg x) = dabs x"
  by (cases x) simp_all

lemma dsub_swap: "dsub b a = dneg (dsub a b)"
  by (simp add: dsub_def dneg_dadd dneg_dneg dadd_commute)

lemma abs_err_commute: "abs_err a b = abs_err b a"
  by (simp add: abs_err_def dsub_swap [of b a] dabs_dneg)

section \<open>Properties of the comparisons\<close>

lemma dle_refl: "x \<noteq> NaN \<Longrightarrow> dle x x"
  by (cases x) (simp_all add: dle_def)

lemma dle_not_NaN: "dle x y \<Longrightarrow> x \<noteq> NaN \<and> y \<noteq> NaN"
  by (cases x; cases y) (simp_all add: dle_def)

lemma dlt_imp_dle: "dlt x y \<Longrightarrow> dle x y"
  by (simp add: dle_def)

lemma dle_trans: "dle x y \<Longrightarrow> dle y z \<Longrightarrow> dle x z"
  by (cases x; cases y; cases z) (auto simp add: dle_def)

lemma not_dlt_imp_dle: "x \<noteq> NaN \<Longrightarrow> y \<noteq> NaN \<Longrightarrow> \<not> dlt x y \<Longrightarrow> dle y x"
  by (cases x; cases y) (auto simp add: dle_def)

lemma dle_antisym: "dle x y \<Longrightarrow> dle y x \<Longrightarrow> x = y"
  by (cases x; cases y) (auto simp add: dle_def)

lemma dle_zero_iff: "dle (Fin 0) x \<longleftrightarrow> x = PInf \<or> (\<exists>y. 0 \<le> y \<and> x = Fin y)"
  by (cases x) (auto simp add: dle_def)

lemma dle_std_max: "x \<noteq> NaN \<Longrightarrow> dle x (std_max x e)"
  by (simp add: std_max_def dlt_imp_dle dle_refl)

text \<open>
  On a non-empty vector without NaN, \<open>*std::max_element\<close> is the maximum of the entries.
\<close>

lemma max_element_from_props:
  "largest \<noteq> NaN \<Longrightarrow> \<forall>x \<in> set xs. x \<noteq> NaN \<Longrightarrow>
   max_element_from largest xs \<in> insert largest (set xs)
   \<and> dle largest (max_element_from largest xs)
   \<and> (\<forall>x \<in> set xs. dle x (max_element_from largest xs))"
proof (induction xs arbitrary: largest)
  case Nil
  then show ?case by (simp add: dle_refl)
next
  case (Cons x xs)
  let ?l = "if dlt largest x then x else largest"
  have l: "?l \<noteq> NaN" using Cons.prems by simp
  have ih: "max_element_from ?l xs \<in> insert ?l (set xs)
     \<and> dle ?l (max_element_from ?l xs)
     \<and> (\<forall>y \<in> set xs. dle y (max_element_from ?l xs))"
    using Cons.IH [OF l] Cons.prems by simp
  have a: "dle largest ?l" and b: "dle x ?l"
    using Cons.prems by (auto simp add: dlt_imp_dle dle_refl not_dlt_imp_dle)
  show ?case
    using ih a b by (auto intro: dle_trans)
qed

lemma max_element_is_maximum:
  assumes "v \<noteq> []" and "\<forall>x \<in> set v. x \<noteq> NaN"
  shows "\<exists>m. max_element v = Some m \<and> is_maximum m v"
proof (cases v)
  case Nil
  with assms show ?thesis by simp
next
  case (Cons x xs)
  with assms max_element_from_props [of x xs] show ?thesis
    by (auto simp add: max_element_def is_maximum_def)
qed

lemma is_maximum_unique: "is_maximum m v \<Longrightarrow> is_maximum m' v \<Longrightarrow> m = m'"
  by (auto simp add: is_maximum_def intro: dle_antisym)

section \<open>Signs\<close>

lemma is_finite_iff: "is_finite x \<longleftrightarrow> (\<exists>r. x = Fin r)"
  by (cases x) simp_all

lemma dabs_nonneg: "x \<noteq> NaN \<Longrightarrow> dle (Fin 0) (dabs x)"
  by (cases x) (simp_all add: dle_def)

lemma dadd_nonneg:
  assumes "dle (Fin 0) x" and "dle (Fin 0) y"
  shows "dle (Fin 0) (dadd x y)"
proof (cases x)
  case (Fin r)
  show ?thesis
  proof (cases y)
    case (Fin q)
    with \<open>x = Fin r\<close> assms have "0 \<le> r + q" by (auto simp add: dle_def)
    then show ?thesis
      using round64_nonneg [of "r + q"] \<open>x = Fin r\<close> \<open>y = Fin q\<close>
      by (auto simp add: dle_zero_iff)
  qed (use assms \<open>x = Fin r\<close> in \<open>simp_all add: dle_def\<close>)
next
  case PInf
  with assms show ?thesis by (cases y) (simp_all add: dle_def)
qed (use assms in \<open>simp_all add: dle_def\<close>)

lemma dmul_self_nonneg: "dle (Fin 0) x \<Longrightarrow> dle (Fin 0) (dmul x x)"
proof (cases x)
  case (Fin r)
  then show ?thesis
    using round64_nonneg [of "r * r"] by (auto simp add: dle_zero_iff)
qed (simp_all add: dle_def signed_inf_def)

lemma abs_err_nonneg:
  assumes "is_finite av" and "is_finite bv"
  shows "dle (Fin 0) (abs_err av bv)"
proof -
  obtain r q where "av = Fin r" "bv = Fin q"
    using assms by (auto simp add: is_finite_iff)
  then show ?thesis
    by (simp add: abs_err_def dsub_def dabs_nonneg round64_not_NaN)
qed

lemma rel_err_nonneg:
  assumes "is_finite av" and "is_finite bv"
  shows "dle (Fin 0) (rel_err av bv)"
proof -
  obtain r q where rq: "av = Fin r" "bv = Fin q"
    using assms by (auto simp add: is_finite_iff)
  have ae: "dle (Fin 0) (abs_err av bv)"
    using assms by (rule abs_err_nonneg)
  show ?thesis
  proof (cases "deq (abs_err av bv) (Fin 0) \<or> deq av (Fin 0) \<or> deq bv (Fin 0)")
    case True
    then show ?thesis by (auto simp add: rel_err_def dle_def)
  next
    case False
    then have nz: "r \<noteq> 0" "q \<noteq> 0" using rq by simp_all
    obtain m where m: "std_min (dabs av) (dabs bv) = Fin m" "0 < m"
      using rq nz by (cases "\<bar>q\<bar> < \<bar>r\<bar>") (simp_all add: std_min_def)
    have "dle (Fin 0) (ddiv (abs_err av bv) (Fin m))"
    proof (cases "abs_err av bv")
      case (Fin e)
      with ae have "0 \<le> e / m" using m(2) by (auto simp add: dle_def)
      then show ?thesis
        using round64_nonneg [of "e / m"] Fin m(2) by (auto simp add: dle_zero_iff)
    qed (use ae m(2) in \<open>simp_all add: dle_def signed_inf_def\<close>)
    with False m(1) show ?thesis by (simp add: rel_err_def)
  qed
qed

section \<open>The loops, pass by pass\<close>

lemma component_loop_state_after:
  assumes "nc = GetNumberOfComponents a"
  shows "c \<le> nc \<Longrightarrow>
    component_loop args a b nc t c (state_after args a b (t * nc + c))
    = state_after args a b (t * nc + nc)"
proof (induction "nc - c" arbitrary: c)
  case 0
  then have "c = nc" by simp
  then show ?case
    by (subst component_loop.simps) simp
next
  case (Suc n)
  then have lt: "c < nc" and le: "c + 1 \<le> nc" and n: "n = nc - (c + 1)"
    by simp_all
  have step: "component_body args a b t c (state_after args a b (t * nc + c))
      = state_after args a b (t * nc + (c + 1))"
    using lt assms by simp
  show ?case
    using lt Suc.hyps(1) [OF n le]
    by (subst component_loop.simps) (simp add: step del: state_after.simps)
qed

lemma tuple_loop_state_after:
  assumes "nc = GetNumberOfComponents a"
  shows "t \<le> nt \<Longrightarrow>
    tuple_loop args a b nt nc t (state_after args a b (t * nc))
    = state_after args a b (nt * nc)"
proof (induction "nt - t" arbitrary: t)
  case 0
  then have "t = nt" by simp
  then show ?case
    by (subst tuple_loop.simps) simp
next
  case (Suc n)
  then have lt: "t < nt" and le: "t + 1 \<le> nt" and n: "n = nt - (t + 1)"
    by simp_all
  have inner: "component_loop args a b nc t 0 (state_after args a b (t * nc))
      = state_after args a b ((t + 1) * nc)"
    using component_loop_state_after [OF assms, of 0 args b t]
    by (simp add: add.commute)
  show ?case
    using lt Suc.hyps(1) [OF n le]
    by (subst tuple_loop.simps) (simp add: inner del: state_after.simps)
qed

text \<open>The scan ends in the state after all \<open>num_tuples * num_components\<close> passes.\<close>

lemma scan_state_after:
  "scan args a b = state_after args a b (GetNumberOfTuples a * GetNumberOfComponents a)"
  using tuple_loop_state_after [of "GetNumberOfComponents a" a 0 "GetNumberOfTuples a" args b]
  by (simp add: scan_def)

section \<open>One pass through the loop body\<close>

lemma component_body_fields:
  "abs_err_norm_l1 (component_body args a b t c s) =
     (abs_err_norm_l1 s)[c := dadd (abs_err_norm_l1 s ! c)
        (abs_err (GetComponent a t c) (GetComponent b t c))]"
  "abs_err_norm_2_2 (component_body args a b t c s) =
     (abs_err_norm_2_2 s)[c := dadd (abs_err_norm_2_2 s ! c)
        (dmul (abs_err (GetComponent a t c) (GetComponent b t c))
              (abs_err (GetComponent a t c) (GetComponent b t c)))]"
  "abs_err_norm_max (component_body args a b t c s) =
     (abs_err_norm_max s)[c := std_max (abs_err_norm_max s ! c)
        (abs_err (GetComponent a t c) (GetComponent b t c))]"
  "rel_err_norm_l1 (component_body args a b t c s) =
     (rel_err_norm_l1 s)[c := dadd (rel_err_norm_l1 s ! c)
        (rel_err (GetComponent a t c) (GetComponent b t c))]"
  "rel_err_norm_2_2 (component_body args a b t c s) =
     (rel_err_norm_2_2 s)[c := dadd (rel_err_norm_2_2 s ! c)
        (dmul (rel_err (GetComponent a t c) (GetComponent b t c))
              (rel_err (GetComponent a t c) (GetComponent b t c)))]"
  "rel_err_norm_max (component_body args a b t c s) =
     (rel_err_norm_max s)[c := std_max (rel_err_norm_max s ! c)
        (rel_err (GetComponent a t c) (GetComponent b t c))]"
  by (simp_all add: component_body_def Let_def)

lemma cout_component_body:
  "cout (component_body args a b t c s) =
     cout s @
     (if dgt (abs_err (GetComponent a t c) (GetComponent b t c)) (abs_err_thr args)
         \<and> dgt (rel_err (GetComponent a t c) (GetComponent b t c)) (rel_err_thr args)
         \<and> verbose args
      then diagnostic t c (abs_err (GetComponent a t c) (GetComponent b t c))
             (rel_err (GetComponent a t c) (GetComponent b t c))
      else [])"
  by (simp add: component_body_def Let_def)

lemma update_entry_inv:
  assumes "\<forall>x \<in> set xs. P x" and "\<And>x. P x \<Longrightarrow> P (f x)"
  shows "\<forall>y \<in> set (xs[i := f (xs ! i)]). P y"
proof (cases "i < length xs")
  case True
  then have "P (f (xs ! i))" using assms by simp
  with assms(1) show ?thesis
    using set_update_subset_insert [of xs i "f (xs ! i)"] by auto
next
  case False
  then have "xs[i := f (xs ! i)] = xs" by (simp add: list_update_beyond)
  with assms(1) show ?thesis by simp
qed

lemma replicate_update_same: "(replicate n x)[i := x] = replicate n x"
  by (cases "i < n") (simp_all add: list_eq_iff_nth_eq nth_list_update list_update_beyond)

section \<open>Invariants of the scan\<close>

lemma length_state_after:
  "length (abs_err_norm_l1 (state_after args a b k)) = GetNumberOfComponents a"
  "length (abs_err_norm_2_2 (state_after args a b k)) = GetNumberOfComponents a"
  "length (abs_err_norm_max (state_after args a b k)) = GetNumberOfComponents a"
  "length (rel_err_norm_l1 (state_after args a b k)) = GetNumberOfComponents a"
  "length (rel_err_norm_2_2 (state_after args a b k)) = GetNumberOfComponents a"
  "length (rel_err_norm_max (state_after args a b k)) = GetNumberOfComponents a"
  by (induction k; simp add: initial_state_def component_body_fields)+

lemma std_max_nonneg: "dle (Fin 0) x \<Longrightarrow> dle (Fin 0) (std_max x e)"
  using dle_trans [OF _ dle_std_max] dle_not_NaN by blast

lemma max_nonneg_state_after:
  "\<forall>x \<in> set (abs_err_norm_max (state_after args a b k)). dle (Fin 0) x"
  "\<forall>x \<in> set (rel_err_norm_max (state_after args a b k)). dle (Fin 0) x"
proof (induction k)
  case 0
  show "\<forall>x \<in> set (abs_err_norm_max (state_after args a b 0)). dle (Fin 0) x"
    by (simp add: initial_state_def dle_def)
  show "\<forall>x \<in> set (rel_err_norm_max (state_after args a b 0)). dle (Fin 0) x"
    by (simp add: initial_state_def dle_def)
next
  case (Suc k)
  show "\<forall>x \<in> set (abs_err_norm_max (state_after args a b (Suc k))). dle (Fin 0) x"
    unfolding state_after.simps component_body_fields
    by (rule update_entry_inv [OF Suc(1)]) (rule std_max_nonneg)
  show "\<forall>x \<in> set (rel_err_norm_max (state_after args a b (Suc k))). dle (Fin 0) x"
    unfolding state_after.simps component_body_fields
    by (rule update_entry_inv [OF Suc(2)]) (rule std_max_nonneg)
qed

lemma max_not_NaN_state_after:
  "\<forall>x \<in> set (abs_err_norm_max (state_after args a b k)). x \<noteq> NaN"
  "\<forall>x \<in> set (rel_err_norm_max (state_after args a b k)). x \<noteq> NaN"
  using max_nonneg_state_after [of args a b k] dle_not_NaN by blast+

lemma std_max_update_mono:
  assumes "\<forall>x \<in> set xs. x \<noteq> NaN" and "c < length xs"
  shows "dle (xs ! c) (xs[i := std_max (xs ! i) e] ! c)"
proof (cases "i = c")
  case True
  with assms show ?thesis by (simp add: dle_std_max)
next
  case False
  with assms show ?thesis by (simp add: dle_refl)
qed

lemma max_step_mono:
  assumes "c < GetNumberOfComponents a"
  shows "dle (abs_err_norm_max (state_after args a b k) ! c)
             (abs_err_norm_max (state_after args a b (Suc k)) ! c)"
    and "dle (rel_err_norm_max (state_after args a b k) ! c)
             (rel_err_norm_max (state_after args a b (Suc k)) ! c)"
  unfolding state_after.simps component_body_fields
  using assms
  by (simp_all add: std_max_update_mono max_not_NaN_state_after length_state_after)

lemma max_mono:
  assumes "c < GetNumberOfComponents a" and "k \<le> k'"
  shows "dle (abs_err_norm_max (state_after args a b k) ! c)
             (abs_err_norm_max (state_after args a b k') ! c)"
    and "dle (rel_err_norm_max (state_after args a b k) ! c)
             (rel_err_norm_max (state_after args a b k') ! c)"
  using assms(2)
proof (induction k' rule: dec_induct)
  case base
  show "dle (abs_err_norm_max (state_after args a b k) ! c)
            (abs_err_norm_max (state_after args a b k) ! c)"
    using assms(1) max_not_NaN_state_after(1) [of args a b k]
    by (simp add: dle_refl length_state_after)
  show "dle (rel_err_norm_max (state_after args a b k) ! c)
            (rel_err_norm_max (state_after args a b k) ! c)"
    using assms(1) max_not_NaN_state_after(2) [of args a b k]
    by (simp add: dle_refl length_state_after)
next
  case (step n)
  show "dle (abs_err_norm_max (state_after args a b k) ! c)
            (abs_err_norm_max (state_after args a b (Suc n)) ! c)"
    using step.IH(1) max_step_mono(1) [OF assms(1)] by (rule dle_trans)
  show "dle (rel_err_norm_max (state_after args a b k) ! c)
            (rel_err_norm_max (state_after args a b (Suc n)) ! c)"
    using step.IH(2) max_step_mono(2) [OF assms(1)] by (rule dle_trans)
qed

section \<open>The scan of finite data\<close>

lemma pass_position:
  assumes "k < nt * nc"
  shows "k div nc < nt" and "k mod nc < (nc::nat)"
proof -
  have "0 < nc" using assms by (cases nc) simp_all
  then show "k mod nc < nc" by simp
  show "k div nc < nt"
    using assms by (simp add: less_mult_imp_div_less)
qed

lemma nonneg_state_after:
  assumes "finite_data a" and "finite_data b" and "shape_compatible a b"
      and "k \<le> GetNumberOfTuples a * GetNumberOfComponents a"
  shows "\<forall>v \<in> set (norm_vectors (state_after args a b k)). \<forall>x \<in> set v. dle (Fin 0) x"
  using assms(4)
proof (induction k)
  case 0
  show ?case by (simp add: norm_vectors_def initial_state_def dle_def)
next
  case (Suc k)
  let ?t = "k div GetNumberOfComponents a" and ?c = "k mod GetNumberOfComponents a"
  let ?s = "state_after args a b k"
  have pos: "?t < GetNumberOfTuples a" "?c < GetNumberOfComponents a"
    using Suc.prems pass_position [of k "GetNumberOfTuples a" "GetNumberOfComponents a"]
    by simp_all
  have fin: "is_finite (GetComponent a ?t ?c)" "is_finite (GetComponent b ?t ?c)"
    using pos assms(1,2,3) by (simp_all add: finite_data_def shape_compatible_def)
  have ae: "dle (Fin 0) (abs_err (GetComponent a ?t ?c) (GetComponent b ?t ?c))"
    and re: "dle (Fin 0) (rel_err (GetComponent a ?t ?c) (GetComponent b ?t ?c))"
    using fin by (simp_all add: abs_err_nonneg rel_err_nonneg)
  have ih: "\<forall>v \<in> set (norm_vectors ?s). \<forall>x \<in> set v. dle (Fin 0) x"
    using Suc by simp
  have "\<forall>x \<in> set (abs_err_norm_l1 (state_after args a b (Suc k))). dle (Fin 0) x"
    unfolding state_after.simps component_body_fields
    using ih ae by (intro update_entry_inv) (simp_all add: norm_vectors_def dadd_nonneg)
  moreover have "\<forall>x \<in> set (abs_err_norm_2_2 (state_after args a b (Suc k))). dle (Fin 0) x"
    unfolding state_after.simps component_body_fields
    using ih ae
    by (intro update_entry_inv) (simp_all add: norm_vectors_def dadd_nonneg dmul_self_nonneg)
  moreover have "\<forall>x \<in> set (rel_err_norm_l1 (state_after args a b (Suc k))). dle (Fin 0) x"
    unfolding state_after.simps component_body_fields
    using ih re by (intro update_entry_inv) (simp_all add: norm_vectors_def dadd_nonneg)
  moreover have "\<forall>x \<in> set (rel_err_norm_2_2 (state_after args a b (Suc k))). dle (Fin 0) x"
    unfolding state_after.simps component_body_fields
    using ih re
    by (intro update_entry_inv) (simp_all add: norm_vectors_def dadd_nonneg dmul_self_nonneg)
  ultimately show ?case
    using max_nonneg_state_after [of args a b "Suc k"]
    by (simp add: norm_vectors_def del: state_after.simps)
qed

section \<open>The run as a whole\<close>

lemma main_compatible:
  assumes "stringEndsWith (vtk_input_a args) ''.vtu''" and "shape_compatible a b"
  shows "main args (Some (a, b)) =
     (case verdict args (scan args a b) of
        Inl f \<Rightarrow> Inl f
      | Inr (st, msg) \<Rightarrow>
          Inr \<lparr>status = st,
               stdout = comparing_message args @ cout (scan args a b)
                 @ (if \<not> quiet args then error_information (scan args a b) else []) @ msg,
               stderr = []\<rparr>)"
  using assms by (simp add: main_def compare_arrays_def shape_compatible_def Let_def)

lemma verdict_of_maxima:
  assumes "max_element (abs_err_norm_max s) = Some m_abs"
      and "max_element (rel_err_norm_max s) = Some m_rel"
  shows "\<exists>msg. verdict args s =
     Inr (if dgt m_abs (abs_err_thr args) \<and> dgt m_rel (rel_err_thr args)
          then EXIT_FAILURE else EXIT_SUCCESS, msg)"
  using assms by (simp add: verdict_def)

lemma scan_maxima:
  assumes "0 < GetNumberOfComponents a"
  shows "\<exists>m. max_element (abs_err_norm_max (scan args a b)) = Some m
             \<and> is_maximum m (abs_err_norm_max (scan args a b))"
    and "\<exists>m. max_element (rel_err_norm_max (scan args a b)) = Some m
             \<and> is_maximum m (rel_err_norm_max (scan args a b))"
proof -
  let ?k = "GetNumberOfTuples a * GetNumberOfComponents a"
  have "abs_err_norm_max (state_after args a b ?k) \<noteq> []"
    and "rel_err_norm_max (state_after args a b ?k) \<noteq> []"
    using assms length_state_after(3,6) [of args a b ?k] by auto
  then show "\<exists>m. max_element (abs_err_norm_max (scan args a b)) = Some m
             \<and> is_maximum m (abs_err_norm_max (scan args a b))"
    and "\<exists>m. max_element (rel_err_norm_max (scan args a b)) = Some m
             \<and> is_maximum m (rel_err_norm_max (scan args a b))"
    unfolding scan_state_after
    by (simp_all add: max_element_is_maximum max_not_NaN_state_after)
qed

text \<open>
  C1.  For two numeric arrays of the same shape (with at least one component, so that the
  maxima exist, and at most \<open>INT_MAX\<close> tuples, so that the loop counter does not
  overflow), let \<open>M_abs\<close> be the maximum of the entries of \<open>abs_err_norm_max\<close> and
  \<open>M_rel\<close> the maximum of the entries of \<open>rel_err_norm_max\<close> after the scan.  The run
  exits with failure status if \<open>M_abs > abs_err_thr\<close> and \<open>M_rel > rel_err_thr\<close>, and
  with success status otherwise.  Each vector has exactly one maximum, and the two maxima
  are taken independently of each other.
\<close>

theorem verdict_rule:
  assumes "stringEndsWith (vtk_input_a args) ''.vtu''"
      and "shape_compatible a b"
      and "0 < GetNumberOfComponents a"
      and "GetNumberOfTuples a \<le> INT_MAX"
  shows "\<exists>M_abs M_rel out.
           is_maximum M_abs (abs_err_norm_max (scan args a b))
         \<and> is_maximum M_rel (rel_err_norm_max (scan args a b))
         \<and> (\<forall>M. is_maximum M (abs_err_norm_max (scan args a b)) \<longrightarrow> M = M_abs)
         \<and> (\<forall>M. is_maximum M (rel_err_norm_max (scan args a b)) \<longrightarrow> M = M_rel)
         \<and> main args (Some (a, b)) =
             Inr \<lparr>status = (if dgt M_abs (abs_err_thr args) \<and> dgt M_rel (rel_err_thr args)
                            then EXIT_FAILURE else EXIT_SUCCESS),
                  stdout = out, stderr = []\<rparr>"
proof -
  obtain M_abs where abs: "max_element (abs_err_norm_max (scan args a b)) = Some M_abs"
      "is_maximum M_abs (abs_err_norm_max (scan args a b))"
    using scan_maxima(1) [OF assms(3)] by blast
  obtain M_rel where rel: "max_element (rel_err_norm_max (scan args a b)) = Some M_rel"
      "is_maximum M_rel (rel_err_norm_max (scan args a b))"
    using scan_maxima(2) [OF assms(3)] by blast
  obtain msg where "verdict args (scan args a b) =
     Inr (if dgt M_abs (abs_err_thr args) \<and> dgt M_rel (rel_err_thr args)
          then EXIT_FAILURE else EXIT_SUCCESS, msg)"
    using verdict_of_maxima [OF abs(1) rel(1)] by blast
  then have "\<exists>out. main args (Some (a, b)) =
     Inr \<lparr>status = (if dgt M_abs (abs_err_thr args) \<and> dgt M_rel (rel_err_thr args)
                    then EXIT_FAILURE else EXIT_SUCCESS),
          stdout = out, stderr = []\<rparr>"
    by (simp add: main_compatible [OF assms(1,2)])
  moreover have "\<forall>M. is_maximum M (abs_err_norm_max (scan args a b)) \<longrightarrow> M = M_abs"
    and "\<forall>M. is_maximum M (rel_err_norm_max (scan args a b)) \<longrightarrow> M = M_rel"
    using abs(2) rel(2) by (blast intro: is_maximum_unique)+
  ultimately show ?thesis
    using abs(2) rel(2) by blast
qed

theorem verdict_rule_witness:
  "stringEndsWith (vtk_input_a default_args) ''.vtu''
   \<and> shape_compatible (double_array 1 [[Fin 1], [Fin 2]]) (double_array 1 [[Fin 1], [Fin 3]])
   \<and> 0 < GetNumberOfComponents (double_array 1 [[Fin 1], [Fin 2]])
   \<and> GetNumberOfTuples (double_array 1 [[Fin 1], [Fin 2]]) \<le> INT_MAX
   \<and> (\<exists>M_abs M_rel out.
         is_maximum M_abs (abs_err_norm_max
           (scan default_args (double_array 1 [[Fin 1], [Fin 2]]) (double_array 1 [[Fin 1], [Fin 3]])))
       \<and> is_maximum M_rel (rel_err_norm_max
           (scan default_args (double_array 1 [[Fin 1], [Fin 2]]) (double_array 1 [[Fin 1], [Fin 3]])))
       \<and> main default_args
            (Some (double_array 1 [[Fin 1], [Fin 2]], double_array 1 [[Fin 1], [Fin 3]])) =
           Inr \<lparr>status = (if dgt M_abs (abs_err_thr default_args)
                             \<and> dgt M_rel (rel_err_thr default_args)
                          then EXIT_FAILURE else EXIT_SUCCESS),
                stdout = out, stderr = []\<rparr>)"
proof -
  let ?a = "double_array 1 [[Fin 1], [Fin 2]]" and ?b = "double_array 1 [[Fin 1], [Fin 3]]"
  have h: "stringEndsWith (vtk_input_a default_args) ''.vtu''" "shape_compatible ?a ?b"
    "0 < GetNumberOfComponents ?a" "GetNumberOfTuples ?a \<le> INT_MAX"
    by (simp_all add: stringEndsWith_def default_args_def double_array_def
        shape_compatible_def INT_MAX_def)
  show ?thesis
    using h verdict_rule [OF h] by blast
qed

section \<open>The relative error\<close>

lemma rel_err_spec: "rel_err av bv = spec_rel_err av bv"
  by (cases av; cases bv)
    (auto simp add: rel_err_def spec_rel_err_def abs_err_def dsub_def std_min_def smaller_def
       dle_def Let_def)

lemma rel_err_divisor_nonzero:
  assumes "\<not> deq (abs_err av bv) (Fin 0)" and "\<not> (deq av (Fin 0) \<or> deq bv (Fin 0))"
  shows "std_min (dabs av) (dabs bv) \<noteq> Fin 0"
  using assms by (cases av; cases bv) (auto simp add: std_min_def)

text \<open>
  C2.  The relative error of a pair of components \<open>av\<close>, \<open>bv\<close> follows the three-way
  policy: it is 0 when \<open>|av - bv|\<close> is 0, \<open>+\<infinity>\<close> when that is not so and \<open>av\<close> or \<open>bv\<close>
  is 0, and \<open>|av - bv| / min(|av|, |bv|)\<close> otherwise; this is the value every pass of
  the scan adds to the three relative norms of its component.  In particular the relative
  error of \<open>(5, 5)\<close> is 0, of \<open>(0, 1)\<close> is \<open>+\<infinity>\<close>, of \<open>(0, 0)\<close> is 0 and of \<open>(2, 4)\<close> is 1.
\<close>

theorem relative_error_policy:
  "rel_err av bv = spec_rel_err av bv
   \<and> rel_err_norm_l1 (component_body args a b t c s) =
       (rel_err_norm_l1 s)[c := dadd (rel_err_norm_l1 s ! c)
          (spec_rel_err (GetComponent a t c) (GetComponent b t c))]
   \<and> rel_err_norm_2_2 (component_body args a b t c s) =
       (rel_err_norm_2_2 s)[c := dadd (rel_err_norm_2_2 s ! c)
          (dmul (spec_rel_err (GetComponent a t c) (GetComponent b t c))
                (spec_rel_err (GetComponent a t c) (GetComponent b t c)))]
   \<and> rel_err_norm_max (component_body args a b t c s) =
       (rel_err_norm_max s)[c := std_max (rel_err_norm_max s ! c)
          (spec_rel_err (GetComponent a t c) (GetComponent b t c))]
   \<and> rel_err (Fin 5) (Fin 5) = Fin 0
   \<and> rel_err (Fin 0) (Fin 1) = PInf
   \<and> rel_err (Fin 0) (Fin 0) = Fin 0
   \<and> rel_err (Fin 2) (Fin 4) = Fin 1"
proof -
  have "rel_err (Fin 5) (Fin 5) = Fin 0"
    by (simp add: rel_err_def abs_err_def dsub_def round64_values)
  moreover have "rel_err (Fin 0) (Fin 1) = PInf"
    by (simp add: rel_err_def abs_err_def dsub_def round64_values)
  moreover have "rel_err (Fin 0) (Fin 0) = Fin 0"
    by (simp add: rel_err_def abs_err_def dsub_def round64_values)
  moreover have "rel_err (Fin 2) (Fin 4) = Fin 1"
    by (simp add: rel_err_def abs_err_def dsub_def std_min_def round64_values)
  ultimately show ?thesis
    by (simp add: component_body_fields rel_err_spec [symmetric])
qed

section \<open>The report\<close>

lemma abs_err_1_3: "abs_err (Fin 1) (Fin 3) = Fin 2"
  by (simp add: abs_err_def dsub_def round64_values)

lemma rel_err_1_3: "rel_err (Fin 1) (Fin 3) = Fin 2"
  by (simp add: rel_err_def abs_err_1_3 std_min_def round64_values)

lemma body_ex: "component_body default_args (double_array 1 [[Fin 1]]) (double_array 1 [[Fin 3]]) 0 0 (initial_state 1)
  = \<lparr>abs_err_norm_l1 = [Fin 2], abs_err_norm_2_2 = [Fin 4],
    abs_err_norm_max = [Fin 2], rel_err_norm_l1 = [Fin 2],
    rel_err_norm_2_2 = [Fin 4], rel_err_norm_max = [Fin 2],
    cout =
      [Text ''tuple: '', Count 0, Text ''component: '', Count 0,
       Text '': abs err = '', Number (Fin 2), Text '', rel err = '',
       Number (Fin 2), Text ''\<newline>'']\<rparr>"
  by (simp add: component_body_def double_array_def abs_err_1_3 rel_err_1_3 initial_state_def
      default_args_def std_max_def dgt_def diagnostic_def round64_values Let_def)


lemma scan_ex: "scan default_args (double_array 1 [[Fin 1]]) (double_array 1 [[Fin 3]])
  = \<lparr>abs_err_norm_l1 = [Fin 2], abs_err_norm_2_2 = [Fin 4],
    abs_err_norm_max = [Fin 2], rel_err_norm_l1 = [Fin 2],
    rel_err_norm_2_2 = [Fin 4], rel_err_norm_max = [Fin 2],
    cout =
      [Text ''tuple: '', Count 0, Text ''component: '', Count 0,
       Text '': abs err = '', Number (Fin 2), Text '', rel err = '',
       Number (Fin 2), Text ''\<newline>'']\<rparr>"
proof -
  have "scan default_args (double_array 1 [[Fin 1]]) (double_array 1 [[Fin 3]])
      = state_after default_args (double_array 1 [[Fin 1]]) (double_array 1 [[Fin 3]]) (Suc 0)"
    by (simp add: scan_state_after double_array_def)
  also have "\<dots> = component_body default_args (double_array 1 [[Fin 1]])
      (double_array 1 [[Fin 3]]) 0 0 (initial_state 1)"
    by (simp add: double_array_def)
  finally show ?thesis
    by (simp only: body_ex)
qed

lemma max_element_single: "max_element [x] = Some x"
  by (simp add: max_element_def)

text \<open>
  C3.  The report printed without \<open>--quiet\<close> is meant to show all six norms, both
  \<open>l2\<close> norms after the square root.  The line labelled \<open>rel l2-norm\<close> is given
  \<open>rel_err_norm_2_2\<close>, not its square root: comparing the one-component arrays \<open>[1]\<close>
  and \<open>[3]\<close>, where the squared relative \<open>l2\<close> norm is \<open>[4]\<close> and its square root
  \<open>[2]\<close>, the run prints \<open>[4]\<close> on that line (and \<open>[2]\<close>, the square root, on the
  line of the absolute \<open>l2\<close> norm).
\<close>

theorem rel_l2_norm_printed_squared:
  "rel_err_norm_2_2 (scan default_args (double_array 1 [[Fin 1]]) (double_array 1 [[Fin 3]]))
     = [Fin 4]
   \<and> map dsqrt [Fin 4] = [Fin 2]
   \<and> main default_args (Some (double_array 1 [[Fin 1]], double_array 1 [[Fin 3]])) =
       Inr \<lparr>status = EXIT_FAILURE,
            stdout =
              [Text ''Comparing data array `'', Text ''pressure'',
               Text ''' from file `'', Text ''a.vtu'',
               Text ''' to data array `'', Text ''pressure'',
               Text ''' from file `'', Text ''b.vtu'', Text '''.\<newline>'',
               Text ''tuple: '', Count 0, Text ''component: '', Count 0,
               Text '': abs err = '', Number (Fin 2), Text '', rel err = '',
               Number (Fin 2), Text ''\<newline>'',
               Text ''Computed difference between data arrays:\<newline>'',
               Text ''abs l1 norm      = '', Vector [Fin 2], Text ''\<newline>'',
               Text ''abs l2-norm^2    = '', Vector [Fin 4], Text ''\<newline>'',
               Text ''abs l2-norm      = '', Vector [Fin 2], Text ''\<newline>'',
               Text ''abs maximum norm = '', Vector [Fin 2], Text ''\<newline>'',
               Text ''\<newline>'',
               Text ''rel l1 norm      = '', Vector [Fin 2], Text ''\<newline>'',
               Text ''rel l2-norm^2    = '', Vector [Fin 4], Text ''\<newline>'',
               Text ''rel l2-norm      = '', Vector [Fin 4], Text ''\<newline>'',
               Text ''rel maximum norm = '', Vector [Fin 2], Text ''\<newline>'',
               Text (''Absolute and relative error (maximum norm) are larger'' @
                     '' than the corresponding thresholds.\<newline>'')],
            stderr = []\<rparr>"

proof -
  let ?a = "double_array 1 [[Fin 1]]" and ?b = "double_array 1 [[Fin 3]]"
  have compat: "shape_compatible ?a ?b"
    by (simp add: shape_compatible_def double_array_def)
  have vtu: "stringEndsWith (vtk_input_a default_args) ''.vtu''"
    by (simp add: stringEndsWith_def default_args_def)
  have v: "verdict default_args (scan default_args ?a ?b)
    = Inr (EXIT_FAILURE,
        [Text (''Absolute and relative error (maximum norm) are larger'' @
               '' than the corresponding thresholds.\<newline>'')])"
    unfolding verdict_def scan_ex
    by (simp add: max_element_single dgt_def default_args_def)
  have info: "error_information (scan default_args ?a ?b) =
     [Text ''Computed difference between data arrays:\<newline>'',
      Text ''abs l1 norm      = '', Vector [Fin 2], Text ''\<newline>'',
      Text ''abs l2-norm^2    = '', Vector [Fin 4], Text ''\<newline>'',
      Text ''abs l2-norm      = '', Vector [Fin 2], Text ''\<newline>'',
      Text ''abs maximum norm = '', Vector [Fin 2], Text ''\<newline>'',
      Text ''\<newline>'',
      Text ''rel l1 norm      = '', Vector [Fin 2], Text ''\<newline>'',
      Text ''rel l2-norm^2    = '', Vector [Fin 4], Text ''\<newline>'',
      Text ''rel l2-norm      = '', Vector [Fin 4], Text ''\<newline>'',
      Text ''rel maximum norm = '', Vector [Fin 2], Text ''\<newline>'']"
    unfolding scan_ex error_information_def
    by (simp add: round64_values)
  have out: "cout (scan default_args ?a ?b) =
     [Text ''tuple: '', Count 0, Text ''component: '', Count 0,
      Text '': abs err = '', Number (Fin 2), Text '', rel err = '',
      Number (Fin 2), Text ''\<newline>'']"
    unfolding scan_ex by simp
  have msg: "comparing_message default_args =
     [Text ''Comparing data array `'', Text ''pressure'',
      Text ''' from file `'', Text ''a.vtu'',
      Text ''' to data array `'', Text ''pressure'',
      Text ''' from file `'', Text ''b.vtu'', Text '''.\<newline>'']"
    and q: "\<not> quiet default_args"
    by (simp_all add: comparing_message_def default_args_def)
  have "rel_err_norm_2_2 (scan default_args ?a ?b) = [Fin 4]"
    unfolding scan_ex by simp
  moreover have "map dsqrt [Fin 4] = [Fin 2]"
    by (simp add: round64_values)
  moreover have "main default_args (Some (?a, ?b)) =
       Inr \<lparr>status = EXIT_FAILURE,
            stdout =
              [Text ''Comparing data array `'', Text ''pressure'',
               Text ''' from file `'', Text ''a.vtu'',
               Text ''' to data array `'', Text ''pressure'',
               Text ''' from file `'', Text ''b.vtu'', Text '''.\<newline>'',
               Text ''tuple: '', Count 0, Text ''component: '', Count 0,
               Text '': abs err = '', Number (Fin 2), Text '', rel err = '',
               Number (Fin 2), Text ''\<newline>'',
               Text ''Computed difference between data arrays:\<newline>'',
               Text ''abs l1 norm      = '', Vector [Fin 2], Text ''\<newline>'',
               Text ''abs l2-norm^2    = '', Vector [Fin 4], Text ''\<newline>'',
               Text ''abs l2-norm      = '', Vector [Fin 2], Text ''\<newline>'',
               Text ''abs maximum norm = '', Vector [Fin 2], Text ''\<newline>'',
               Text ''\<newline>'',
               Text ''rel l1 norm      = '', Vector [Fin 2], Text ''\<newline>'',
               Text ''rel l2-norm^2    = '', Vector [Fin 4], Text ''\<newline>'',
               Text ''rel l2-norm      = '', Vector [Fin 4], Text ''\<newline>'',
               Text ''rel maximum norm = '', Vector [Fin 2], Text ''\<newline>'',
               Text (''Absolute and relative error (maximum norm) are larger'' @
                     '' than the corresponding thresholds.\<newline>'')],
            stderr = []\<rparr>"
    unfolding main_compatible [OF vtu compat] v info out msg
    using q by simp
  ultimately show ?thesis by blast
qed

section \<open>Diagnostics\<close>

lemma cout_component_body_expected:
  "cout (component_body args a b t c s) = cout s @ expected_diagnostic args a b t c"
  by (auto simp add: cout_component_body expected_diagnostic_def diagnostic_def Let_def)

lemma cout_state_after:
  "cout (state_after args a b k) =
     concat (map (\<lambda>i. expected_diagnostic args a b
                   (i div GetNumberOfComponents a) (i mod GetNumberOfComponents a))
               [0..<k])"
  by (induction k) (simp_all add: initial_state_def cout_component_body_expected)

text \<open>
  C4.  A pass of the scan at tuple \<open>t\<close>, component \<open>c\<close> prints a diagnostic exactly when
  \<open>--verbose\<close> is on and the absolute error of the element exceeds \<open>abs_err_thr\<close> and
  its relative error exceeds \<open>rel_err_thr\<close>; the diagnostic carries \<open>t\<close>, \<open>c\<close> and the
  two errors.  The scan as a whole (of arrays with at most \<open>INT_MAX\<close> tuples, so that
  the loop counter does not overflow) prints these diagnostics, element by element in the
  order of the scan, and nothing else.
\<close>

theorem diagnostic_condition:
  "cout (component_body args a b t c s) = cout s @ expected_diagnostic args a b t c
   \<and> (expected_diagnostic args a b t c \<noteq> [] \<longleftrightarrow>
        verbose args
        \<and> dgt (abs_err (GetComponent a t c) (GetComponent b t c)) (abs_err_thr args)
        \<and> dgt (rel_err (GetComponent a t c) (GetComponent b t c)) (rel_err_thr args))
   \<and> (expected_diagnostic args a b t c = []
        \<or> expected_diagnostic args a b t c =
            [Text ''tuple: '', Count t, Text ''component: '', Count c,
             Text '': abs err = '',
             Number (abs_err (GetComponent a t c) (GetComponent b t c)),
             Text '', rel err = '',
             Number (rel_err (GetComponent a t c) (GetComponent b t c)),
             Text ''\<newline>''])
   \<and> (GetNumberOfTuples a \<le> INT_MAX \<longrightarrow>
        cout (scan args a b) =
          concat (map (\<lambda>i. expected_diagnostic args a b
                        (i div GetNumberOfComponents a) (i mod GetNumberOfComponents a))
                    [0..<GetNumberOfTuples a * GetNumberOfComponents a]))"
  by (simp add: cout_component_body_expected scan_state_after cout_state_after)
    (simp add: expected_diagnostic_def Let_def)

theorem diagnostic_condition_witness:
  "GetNumberOfTuples (double_array 1 [[Fin 1], [Fin 2]]) \<le> INT_MAX
   \<and> cout (scan default_args
         (double_array 1 [[Fin 1], [Fin 2]]) (double_array 1 [[Fin 1], [Fin 3]])) =
       concat (map (\<lambda>i. expected_diagnostic default_args
                     (double_array 1 [[Fin 1], [Fin 2]]) (double_array 1 [[Fin 1], [Fin 3]])
                     (i div GetNumberOfComponents (double_array 1 [[Fin 1], [Fin 2]]))
                     (i mod GetNumberOfComponents (double_array 1 [[Fin 1], [Fin 2]])))
                 [0..<GetNumberOfTuples (double_array 1 [[Fin 1], [Fin 2]])
                      * GetNumberOfComponents (double_array 1 [[Fin 1], [Fin 2]])])"
proof -
  have h: "GetNumberOfTuples (double_array 1 [[Fin 1], [Fin 2]]) \<le> INT_MAX"
    by (simp add: double_array_def INT_MAX_def)
  show ?thesis
    using h diagnostic_condition [of default_args "double_array 1 [[Fin 1], [Fin 2]]"
        "double_array 1 [[Fin 1], [Fin 3]]"]
    by blast
qed

section \<open>Arrays of different shapes\<close>

text \<open>
  C5.  When two numeric arrays differ in their number of tuples or of components, the
  run exits with failure status before the scan: the error stream names the two numbers
  that differ, the standard output holds the first message only (no diagnostic and no
  norm), and the outcome does not depend on any component of either array.
\<close>

theorem shape_mismatch_aborts:
  assumes "stringEndsWith (vtk_input_a args) ''.vtu''"
      and "IsNumeric a" and "IsNumeric b"
      and "GetNumberOfTuples a \<noteq> GetNumberOfTuples b
           \<or> GetNumberOfComponents a \<noteq> GetNumberOfComponents b"
  shows "main args (Some (a, b)) =
           Inr \<lparr>status = EXIT_FAILURE,
                stdout = comparing_message args,
                stderr =
                  (if GetNumberOfTuples a \<noteq> GetNumberOfTuples b
                   then [Text ''Number of tuples differ:\<newline>'',
                         Count (GetNumberOfTuples a), Text '' in data array a and '',
                         Count (GetNumberOfTuples b), Text '' in data array b\<newline>'']
                   else [Text ''Number of components differ:\<newline>'',
                         Count (GetNumberOfComponents a), Text '' in data array a and '',
                         Count (GetNumberOfComponents b),
                         Text '' in data array b\<newline>''])\<rparr>
       \<and> main args (Some (a\<lparr>GetComponent := f\<rparr>, b\<lparr>GetComponent := g\<rparr>))
           = main args (Some (a, b))"
  using assms by (auto simp add: main_def compare_arrays_def Let_def)

theorem shape_mismatch_aborts_witness:
  "stringEndsWith (vtk_input_a default_args) ''.vtu''
   \<and> IsNumeric (double_array 1 (replicate 10 [Fin 1]))
   \<and> IsNumeric (double_array 1 (replicate 11 [Fin 1]))
   \<and> GetNumberOfTuples (double_array 1 (replicate 10 [Fin 1]))
       \<noteq> GetNumberOfTuples (double_array 1 (replicate 11 [Fin 1]))
   \<and> main default_args
        (Some (double_array 1 (replicate 10 [Fin 1]), double_array 1 (replicate 11 [Fin 1])))
      = Inr \<lparr>status = EXIT_FAILURE,
             stdout = comparing_message default_args,
             stderr = [Text ''Number of tuples differ:\<newline>'',
                       Count 10, Text '' in data array a and '',
                       Count 11, Text '' in data array b\<newline>'']\<rparr>"
  using shape_mismatch_aborts [of default_args "double_array 1 (replicate 10 [Fin 1])"
      "double_array 1 (replicate 11 [Fin 1])"]
  by (simp add: stringEndsWith_def default_args_def double_array_def)

section \<open>Values that are not real numbers\<close>

text \<open>
  What is proved below about all six vectors of norms is for arrays of finite numbers.  An
  array read from a file may also hold a NaN or an infinity, and then a norm can be a NaN:
  compared to itself, the one-component array \<open>[NaN]\<close> leaves a NaN in
  \<open>abs_err_norm_l1\<close>, and so does \<open>[+\<infinity>]\<close>, since \<open>\<infinity> - \<infinity>\<close> is a NaN.  The two vectors of
  maxima never hold a NaN (\<open>max_not_NaN_state_after\<close>), because \<open>std::max(x, NaN)\<close> is
  \<open>x\<close>.
\<close>

lemma abs_err_not_finite:
  "abs_err NaN NaN = NaN" "abs_err PInf PInf = NaN" "abs_err NInf NInf = NaN"
  by (simp_all add: abs_err_def dsub_def)

lemma nan_compared_to_itself:
  "abs_err_norm_l1 (scan args (double_array 1 [[NaN]]) (double_array 1 [[NaN]])) = [NaN]"
  "abs_err_norm_l1 (scan args (double_array 1 [[PInf]]) (double_array 1 [[PInf]])) = [NaN]"
  by (simp_all add: scan_state_after double_array_def component_body_fields initial_state_def
      abs_err_not_finite)

section \<open>Scans that leave the norms at zero\<close>

lemma dlt_irrefl: "\<not> dlt x x"
  by (cases x) simp_all

lemma max_element_replicate: "0 < n \<Longrightarrow> max_element (replicate n x) = Some x"
proof -
  have "max_element_from x (replicate m x) = x" for m
    by (induction m) (simp_all add: dlt_irrefl)
  then show "0 < n \<Longrightarrow> max_element (replicate n x) = Some x"
    by (cases n) (simp_all add: max_element_def)
qed

lemma not_dgt_zero: "dle (Fin 0) thr \<Longrightarrow> \<not> dgt (Fin 0) thr"
  by (cases thr) (auto simp add: dle_def dgt_def)

text \<open>With all maxima at zero and a threshold that is not negative, the verdict passes.\<close>

lemma verdict_zero:
  assumes "abs_err_norm_max s = replicate n (Fin 0)" and "0 < n"
      and "dle (Fin 0) (abs_err_thr args)"
  shows "verdict args s = Inr (EXIT_SUCCESS, [])"
  using assms by (simp add: verdict_def max_element_replicate not_dgt_zero)

lemma abs_err_same: "is_finite x \<Longrightarrow> abs_err x x = Fin 0"
  by (cases x) (simp_all add: abs_err_def dsub_def round64_zero)

lemma rel_err_same: "is_finite x \<Longrightarrow> rel_err x x = Fin 0"
  by (simp add: rel_err_def abs_err_same)

lemma zero_pass:
  assumes "\<forall>v \<in> set (norm_vectors s). v = replicate n (Fin 0)"
      and "abs_err (GetComponent a t c) (GetComponent b t c) = Fin 0"
      and "rel_err (GetComponent a t c) (GetComponent b t c) = Fin 0"
  shows "\<forall>v \<in> set (norm_vectors (component_body args a b t c s)). v = replicate n (Fin 0)"
proof -
  have "(replicate n (Fin 0))[c := f (replicate n (Fin 0) ! c)] = replicate n (Fin 0)"
    if "f (Fin 0) = Fin 0" for f :: "double \<Rightarrow> double"
    using that by (cases "c < n") (simp_all add: replicate_update_same list_update_beyond)
  note upd = this
  have z: "dadd (Fin 0) (Fin 0) = Fin 0" "dmul (Fin 0) (Fin 0) = Fin 0"
    "std_max (Fin 0) (Fin 0) = Fin 0"
    by (simp_all add: round64_zero std_max_def)
  show ?thesis
    using assms(1)
    by (simp add: norm_vectors_def component_body_fields assms(2,3) round64_zero
        upd [of "\<lambda>x. dadd x (Fin 0)"] upd [of "\<lambda>x. std_max x (Fin 0)"] z)
qed

lemma zero_state_after:
  assumes "exact_copy a b" and "finite_data a"
      and "k \<le> GetNumberOfTuples a * GetNumberOfComponents a"
  shows "\<forall>v \<in> set (norm_vectors (state_after args a b k)).
           v = replicate (GetNumberOfComponents a) (Fin 0)"
  using assms(3)
proof (induction k)
  case 0
  show ?case by (simp add: norm_vectors_def initial_state_def)
next
  case (Suc k)
  let ?t = "k div GetNumberOfComponents a" and ?c = "k mod GetNumberOfComponents a"
  have pos: "?t < GetNumberOfTuples a" "?c < GetNumberOfComponents a"
    using Suc.prems pass_position [of k "GetNumberOfTuples a" "GetNumberOfComponents a"]
    by simp_all
  have same: "GetComponent b ?t ?c = GetComponent a ?t ?c"
    and fin: "is_finite (GetComponent a ?t ?c)"
    using pos assms(1,2) by (simp_all add: exact_copy_def finite_data_def)
  have ih: "\<forall>v \<in> set (norm_vectors (state_after args a b k)).
      v = replicate (GetNumberOfComponents a) (Fin 0)"
    using Suc by simp
  show ?case
    unfolding state_after.simps
    using ih by (rule zero_pass) (simp_all add: same fin abs_err_same rel_err_same)
qed

lemma abs_err_same_cases: "abs_err x x = Fin 0 \<or> abs_err x x = NaN"
  by (cases x) (simp_all add: abs_err_def dsub_def round64_zero)

lemma rel_err_same_cases: "rel_err x x = Fin 0 \<or> rel_err x x = NaN"
proof (cases x)
  case (Fin r)
  then show ?thesis by (simp add: rel_err_same)
qed (simp_all add: rel_err_def abs_err_def dsub_def)

lemma std_max_zero: "e = Fin 0 \<or> e = NaN \<Longrightarrow> std_max (Fin 0) e = Fin 0"
  by (auto simp add: std_max_def)

text \<open>
  Compared with an exact copy, the two vectors of maxima stay at zero whatever the
  components are: the error of an element is zero or a NaN, and \<open>std::max(0, NaN)\<close> is 0.
\<close>

lemma zero_max_state_after:
  assumes "exact_copy a b"
      and "k \<le> GetNumberOfTuples a * GetNumberOfComponents a"
  shows "abs_err_norm_max (state_after args a b k) = replicate (GetNumberOfComponents a) (Fin 0)
       \<and> rel_err_norm_max (state_after args a b k) = replicate (GetNumberOfComponents a) (Fin 0)"
  using assms(2)
proof (induction k)
  case 0
  show ?case by (simp add: initial_state_def)
next
  case (Suc k)
  let ?n = "GetNumberOfComponents a"
  let ?t = "k div ?n" and ?c = "k mod ?n"
  have pos: "?t < GetNumberOfTuples a" "?c < ?n"
    using Suc.prems pass_position [of k "GetNumberOfTuples a" ?n] by simp_all
  have same: "GetComponent b ?t ?c = GetComponent a ?t ?c"
    using pos assms(1) by (simp add: exact_copy_def)
  have ih: "abs_err_norm_max (state_after args a b k) = replicate ?n (Fin 0)"
    "rel_err_norm_max (state_after args a b k) = replicate ?n (Fin 0)"
    using Suc by simp_all
  have "std_max (Fin 0) (abs_err (GetComponent a ?t ?c) (GetComponent a ?t ?c)) = Fin 0"
    and "std_max (Fin 0) (rel_err (GetComponent a ?t ?c) (GetComponent a ?t ?c)) = Fin 0"
    by (simp_all add: std_max_zero abs_err_same_cases rel_err_same_cases)
  then show ?case
    using pos(2) by (simp add: component_body_fields ih same replicate_update_same)
qed

text \<open>
  C6.  Comparing a numeric array (with at least one component, and at most \<open>INT_MAX\<close>
  tuples, so that the loop counter does not overflow) to an exact copy of itself leaves
  the two vectors of maxima all zero, and the run exits with success status, whatever
  thresholds \<open>abs_err_thr \<ge> 0\<close> and \<open>rel_err_thr \<ge> 0\<close> are given.  When every component
  of the array is finite, all six vectors of norms are all zero, the square roots of the
  two \<open>l2\<close> vectors included.  That last part does not hold for every array: a NaN or an
  infinite component leaves a NaN in the \<open>l1\<close> and \<open>l2\<close> sums.
\<close>

theorem identity_comparison:
  assumes "stringEndsWith (vtk_input_a args) ''.vtu''"
      and "IsNumeric a" and "exact_copy a b"
      and "0 < GetNumberOfComponents a"
      and "GetNumberOfTuples a \<le> INT_MAX"
      and "dle (Fin 0) (abs_err_thr args)" and "dle (Fin 0) (rel_err_thr args)"
  shows "abs_err_norm_max (scan args a b) = replicate (GetNumberOfComponents a) (Fin 0)
       \<and> rel_err_norm_max (scan args a b) = replicate (GetNumberOfComponents a) (Fin 0)
       \<and> (\<exists>out. main args (Some (a, b)) =
             Inr \<lparr>status = EXIT_SUCCESS, stdout = out, stderr = []\<rparr>)
       \<and> (finite_data a \<longrightarrow>
             (\<forall>v \<in> set (norm_vectors (scan args a b)).
                v = replicate (GetNumberOfComponents a) (Fin 0))
           \<and> map dsqrt (abs_err_norm_2_2 (scan args a b))
               = replicate (GetNumberOfComponents a) (Fin 0)
           \<and> map dsqrt (rel_err_norm_2_2 (scan args a b))
               = replicate (GetNumberOfComponents a) (Fin 0))"
proof -
  have maxima: "abs_err_norm_max (scan args a b) = replicate (GetNumberOfComponents a) (Fin 0)"
    "rel_err_norm_max (scan args a b) = replicate (GetNumberOfComponents a) (Fin 0)"
    using zero_max_state_after [OF assms(3), of _ args] by (simp_all add: scan_state_after)
  have shape: "shape_compatible a b"
    using assms(2,3) by (simp add: shape_compatible_def exact_copy_def)
  have "verdict args (scan args a b) = Inr (EXIT_SUCCESS, [])"
    using maxima(1) assms(4,6) by (rule verdict_zero)
  then have passes: "\<exists>out. main args (Some (a, b)) =
      Inr \<lparr>status = EXIT_SUCCESS, stdout = out, stderr = []\<rparr>"
    by (simp add: main_compatible [OF assms(1) shape])
  have "(\<forall>v \<in> set (norm_vectors (scan args a b)).
            v = replicate (GetNumberOfComponents a) (Fin 0))
       \<and> map dsqrt (abs_err_norm_2_2 (scan args a b))
           = replicate (GetNumberOfComponents a) (Fin 0)
       \<and> map dsqrt (rel_err_norm_2_2 (scan args a b))
           = replicate (GetNumberOfComponents a) (Fin 0)"
    if fin: "finite_data a"
  proof -
    have zero: "\<forall>v \<in> set (norm_vectors (scan args a b)).
        v = replicate (GetNumberOfComponents a) (Fin 0)"
      unfolding scan_state_after using assms(3) fin by (rule zero_state_after) simp
    then have "abs_err_norm_2_2 (scan args a b) = replicate (GetNumberOfComponents a) (Fin 0)"
      "rel_err_norm_2_2 (scan args a b) = replicate (GetNumberOfComponents a) (Fin 0)"
      by (simp_all add: norm_vectors_def)
    with zero show ?thesis
      by (simp add: round64_zero)
  qed
  with maxima passes show ?thesis by blast
qed

theorem identity_comparison_witness:
  "stringEndsWith (vtk_input_a default_args) ''.vtu''
   \<and> IsNumeric (double_array 1 [[Fin 1], [Fin 2]])
   \<and> exact_copy (double_array 1 [[Fin 1], [Fin 2]]) (double_array 1 [[Fin 1], [Fin 2]])
   \<and> 0 < GetNumberOfComponents (double_array 1 [[Fin 1], [Fin 2]])
   \<and> GetNumberOfTuples (double_array 1 [[Fin 1], [Fin 2]]) \<le> INT_MAX
   \<and> dle (Fin 0) (abs_err_thr default_args)
   \<and> dle (Fin 0) (rel_err_thr default_args)
   \<and> finite_data (double_array 1 [[Fin 1], [Fin 2]])
   \<and> norm_vectors (scan default_args
        (double_array 1 [[Fin 1], [Fin 2]]) (double_array 1 [[Fin 1], [Fin 2]]))
      = [[Fin 0], [Fin 0], [Fin 0], [Fin 0], [Fin 0], [Fin 0]]
   \<and> (\<exists>out. main default_args
         (Some (double_array 1 [[Fin 1], [Fin 2]], double_array 1 [[Fin 1], [Fin 2]])) =
        Inr \<lparr>status = EXIT_SUCCESS, stdout = out, stderr = []\<rparr>)"
proof -
  let ?a = "double_array 1 [[Fin 1], [Fin 2]]"
  have h: "stringEndsWith (vtk_input_a default_args) ''.vtu''" "IsNumeric ?a"
    "exact_copy ?a ?a" "0 < GetNumberOfComponents ?a" "GetNumberOfTuples ?a \<le> INT_MAX"
    "dle (Fin 0) (abs_err_thr default_args)" "dle (Fin 0) (rel_err_thr default_args)"
    and fin: "finite_data ?a"
    by (simp_all add: stringEndsWith_def default_args_def double_array_def exact_copy_def
        finite_data_def less_Suc_eq dle_def INT_MAX_def)
  have nc: "GetNumberOfComponents ?a = 1"
    by (simp add: double_array_def)
  note id = identity_comparison [OF h]
  have "\<forall>v \<in> set (norm_vectors (scan default_args ?a ?a)).
      v = replicate (GetNumberOfComponents ?a) (Fin 0)"
    using id fin by blast
  then have "norm_vectors (scan default_args ?a ?a)
      = [[Fin 0], [Fin 0], [Fin 0], [Fin 0], [Fin 0], [Fin 0]]"
    unfolding nc by (simp add: norm_vectors_def)
  with h fin id show ?thesis by blast
qed

lemma main_without_components:
  assumes "stringEndsWith (vtk_input_a args) ''.vtu''" and "shape_compatible a b"
      and "GetNumberOfComponents a = 0"
  shows "main args (Some (a, b)) = Inl Undefined_behaviour"
proof -
  have "abs_err_norm_max (scan args a b) = []"
    using assms(3)
      length_state_after(3) [of args a b "GetNumberOfTuples a * GetNumberOfComponents a"]
    by (simp add: scan_state_after)
  then show ?thesis
    by (simp add: main_compatible [OF assms(1,2)] verdict_def max_element_def)
qed

text \<open>
  Without the restriction to finite components the six vectors need not stay at zero: the
  one-component array \<open>[NaN]\<close>, and likewise \<open>[+\<infinity>]\<close>, compared to an exact copy of itself
  with the default thresholds, leaves \<open>[NaN]\<close>, not \<open>[0]\<close>, in \<open>abs_err_norm_l1\<close>.  Nor is
  there a passing verdict for an array without components: the run has no defined
  behaviour.
\<close>

theorem identity_comparison_counterexample:
  "IsNumeric (double_array 1 [[NaN]])
   \<and> exact_copy (double_array 1 [[NaN]]) (double_array 1 [[NaN]])
   \<and> dle (Fin 0) (abs_err_thr default_args)
   \<and> dle (Fin 0) (rel_err_thr default_args)
   \<and> abs_err_norm_l1 (scan default_args (double_array 1 [[NaN]]) (double_array 1 [[NaN]]))
       = [NaN]
   \<and> \<not> (\<forall>v \<in> set (norm_vectors
            (scan default_args (double_array 1 [[NaN]]) (double_array 1 [[NaN]]))).
          v = replicate (GetNumberOfComponents (double_array 1 [[NaN]])) (Fin 0))
   \<and> exact_copy (double_array 1 [[PInf]]) (double_array 1 [[PInf]])
   \<and> abs_err_norm_l1 (scan default_args (double_array 1 [[PInf]]) (double_array 1 [[PInf]]))
       = [NaN]
   \<and> IsNumeric (double_array 0 [[], []])
   \<and> exact_copy (double_array 0 [[], []]) (double_array 0 [[], []])
   \<and> main default_args (Some (double_array 0 [[], []], double_array 0 [[], []]))
       = Inl Undefined_behaviour"
proof -
  have "IsNumeric (double_array 1 [[NaN]])"
    and "exact_copy (double_array 1 [[NaN]]) (double_array 1 [[NaN]])"
    and "exact_copy (double_array 1 [[PInf]]) (double_array 1 [[PInf]])"
    and "dle (Fin 0) (abs_err_thr default_args)" "dle (Fin 0) (rel_err_thr default_args)"
    and "IsNumeric (double_array 0 [[], []])"
    and "exact_copy (double_array 0 [[], []]) (double_array 0 [[], []])"
    by (simp_all add: double_array_def exact_copy_def default_args_def dle_def)
  moreover have "main default_args (Some (double_array 0 [[], []], double_array 0 [[], []]))
      = Inl Undefined_behaviour"
    by (rule main_without_components)
      (simp_all add: stringEndsWith_def default_args_def double_array_def
         shape_compatible_def)
  moreover have "\<not> (\<forall>v \<in> set (norm_vectors
            (scan default_args (double_array 1 [[NaN]]) (double_array 1 [[NaN]]))).
          v = replicate (GetNumberOfComponents (double_array 1 [[NaN]])) (Fin 0))"
  proof
    let ?s = "scan default_args (double_array 1 [[NaN]]) (double_array 1 [[NaN]])"
    assume "\<forall>v \<in> set (norm_vectors ?s).
        v = replicate (GetNumberOfComponents (double_array 1 [[NaN]])) (Fin 0)"
    moreover have "abs_err_norm_l1 ?s \<in> set (norm_vectors ?s)"
      by (simp add: norm_vectors_def)
    ultimately have "abs_err_norm_l1 ?s
        = replicate (GetNumberOfComponents (double_array 1 [[NaN]])) (Fin 0)"
      by blast
    then have "[NaN] = replicate (GetNumberOfComponents (double_array 1 [[NaN]])) (Fin 0)"
      by (simp only: nan_compared_to_itself(1))
    then show False
      by (simp add: double_array_def)
  qed
  ultimately show ?thesis
    using nan_compared_to_itself [of default_args] by blast
qed

section \<open>Symmetry of the absolute error\<close>

lemma abs_state_after_swap:
  assumes "GetNumberOfComponents a = GetNumberOfComponents b"
  shows "abs_err_norm_l1 (state_after args a b k) = abs_err_norm_l1 (state_after args b a k)
       \<and> abs_err_norm_max (state_after args a b k) = abs_err_norm_max (state_after args b a k)"
proof (induction k)
  case 0
  show ?case using assms by (simp add: initial_state_def)
next
  case (Suc k)
  then show ?case
    using assms abs_err_commute [of "GetComponent a (k div GetNumberOfComponents b)
        (k mod GetNumberOfComponents b)"]
    by (simp add: component_body_fields)
qed

text \<open>
  C7.  For two numeric arrays \<open>a\<close> and \<open>b\<close> of the same shape (with at most \<open>INT_MAX\<close>
  tuples, so that the loop counter does not overflow), the vectors
  \<open>abs_err_norm_l1\<close> and \<open>abs_err_norm_max\<close> computed by comparing \<open>a\<close> against \<open>b\<close>
  are those computed by comparing \<open>b\<close> against \<open>a\<close>, component by component.
\<close>

theorem absolute_error_symmetric:
  assumes "shape_compatible a b" and "GetNumberOfTuples a \<le> INT_MAX"
  shows "abs_err_norm_l1 (scan args a b) = abs_err_norm_l1 (scan args b a)
       \<and> abs_err_norm_max (scan args a b) = abs_err_norm_max (scan args b a)
       \<and> (\<forall>c. abs_err_norm_l1 (scan args a b) ! c = abs_err_norm_l1 (scan args b a) ! c
              \<and> abs_err_norm_max (scan args a b) ! c = abs_err_norm_max (scan args b a) ! c)"
proof -
  have nc: "GetNumberOfComponents a = GetNumberOfComponents b"
    and nt: "GetNumberOfTuples a = GetNumberOfTuples b"
    using assms(1) by (simp_all add: shape_compatible_def)
  show ?thesis
    using abs_state_after_swap [OF nc, of args "GetNumberOfTuples b * GetNumberOfComponents b"]
    by (simp add: scan_state_after nc nt)
qed

theorem absolute_error_symmetric_witness:
  "shape_compatible (double_array 1 [[Fin 1], [Fin 2]]) (double_array 1 [[Fin 1], [Fin 3]])
   \<and> GetNumberOfTuples (double_array 1 [[Fin 1], [Fin 2]]) \<le> INT_MAX
   \<and> abs_err_norm_l1 (scan default_args
         (double_array 1 [[Fin 1], [Fin 2]]) (double_array 1 [[Fin 1], [Fin 3]]))
     = abs_err_norm_l1 (scan default_args
         (double_array 1 [[Fin 1], [Fin 3]]) (double_array 1 [[Fin 1], [Fin 2]]))
   \<and> abs_err_norm_max (scan default_args
         (double_array 1 [[Fin 1], [Fin 2]]) (double_array 1 [[Fin 1], [Fin 3]]))
     = abs_err_norm_max (scan default_args
         (double_array 1 [[Fin 1], [Fin 3]]) (double_array 1 [[Fin 1], [Fin 2]]))"
proof -
  have shape: "shape_compatible (double_array 1 [[Fin 1], [Fin 2]])
      (double_array 1 [[Fin 1], [Fin 3]])"
    by (simp add: shape_compatible_def double_array_def)
  have bound: "GetNumberOfTuples (double_array 1 [[Fin 1], [Fin 2]]) \<le> INT_MAX"
    by (simp add: double_array_def INT_MAX_def)
  show ?thesis
    using shape bound absolute_error_symmetric [OF shape bound, of default_args] by blast
qed

section \<open>The norms at every point of the scan\<close>

lemma length_norm_vectors:
  "\<forall>v \<in> set (norm_vectors (state_after args a b k)). length v = GetNumberOfComponents a"
  by (simp add: norm_vectors_def length_state_after del: state_after.simps)

text \<open>
  C8.  At every point of the scan of two numeric arrays of the same shape (with at most
  \<open>INT_MAX\<close> tuples, so that the loop counter does not overflow), that is after any
  number \<open>k\<close> of passes through the loop body up to all \<open>num_tuples * num_components\<close> of
  them, the six vectors of norms have as many entries as the arrays have components; no
  entry of \<open>abs_err_norm_max\<close> or \<open>rel_err_norm_max\<close> is negative, and none is below
  what it was at an earlier point, as each pass replaces one entry by the \<open>std::max\<close> of
  itself and the error of the element.  When every component of both arrays is finite, no
  entry of any of the six vectors is negative.  That last part does not hold for every
  pair of arrays: a NaN component makes the \<open>l1\<close> and \<open>l2\<close> sums of its component NaN.
\<close>

theorem scan_invariant:
  assumes "shape_compatible a b" and "GetNumberOfTuples a \<le> INT_MAX"
      and "k \<le> GetNumberOfTuples a * GetNumberOfComponents a"
  shows "(\<forall>v \<in> set (norm_vectors (state_after args a b k)).
            length v = GetNumberOfComponents a)
       \<and> (\<forall>x \<in> set (abs_err_norm_max (state_after args a b k)). dle (Fin 0) x)
       \<and> (\<forall>x \<in> set (rel_err_norm_max (state_after args a b k)). dle (Fin 0) x)
       \<and> (finite_data a \<and> finite_data b \<longrightarrow>
            (\<forall>v \<in> set (norm_vectors (state_after args a b k)).
               \<forall>x \<in> set v. dle (Fin 0) x))
       \<and> (\<forall>j c. j \<le> k \<longrightarrow> c < GetNumberOfComponents a \<longrightarrow>
            dle (abs_err_norm_max (state_after args a b j) ! c)
                (abs_err_norm_max (state_after args a b k) ! c)
          \<and> dle (rel_err_norm_max (state_after args a b j) ! c)
                (rel_err_norm_max (state_after args a b k) ! c))
       \<and> abs_err_norm_max (component_body args a b t c s) =
           (abs_err_norm_max s)[c := std_max (abs_err_norm_max s ! c)
              (abs_err (GetComponent a t c) (GetComponent b t c))]
       \<and> rel_err_norm_max (component_body args a b t c s) =
           (rel_err_norm_max s)[c := std_max (rel_err_norm_max s ! c)
              (rel_err (GetComponent a t c) (GetComponent b t c))]
       \<and> scan args a b =
           state_after args a b (GetNumberOfTuples a * GetNumberOfComponents a)"
proof -
  have "\<forall>v \<in> set (norm_vectors (state_after args a b k)). \<forall>x \<in> set v. dle (Fin 0) x"
    if "finite_data a" and "finite_data b"
    using that assms(1,3) by (rule nonneg_state_after)
  then show ?thesis
    using length_norm_vectors [of args a b k] max_nonneg_state_after [of args a b k]
      max_mono [of _ a _ k args b]
    by (simp add: component_body_fields scan_state_after del: state_after.simps)
qed

theorem scan_invariant_witness:
  "shape_compatible (double_array 1 [[Fin 1], [Fin 2]]) (double_array 1 [[Fin 1], [Fin 3]])
   \<and> GetNumberOfTuples (double_array 1 [[Fin 1], [Fin 2]]) \<le> INT_MAX
   \<and> finite_data (double_array 1 [[Fin 1], [Fin 2]])
   \<and> finite_data (double_array 1 [[Fin 1], [Fin 3]])
   \<and> map length (norm_vectors (state_after default_args
         (double_array 1 [[Fin 1], [Fin 2]]) (double_array 1 [[Fin 1], [Fin 3]]) 2))
       = [1, 1, 1, 1, 1, 1]
   \<and> list_all (dle (Fin 0)) (concat (norm_vectors (state_after default_args
         (double_array 1 [[Fin 1], [Fin 2]]) (double_array 1 [[Fin 1], [Fin 3]]) 2)))
   \<and> dle (abs_err_norm_max (state_after default_args
              (double_array 1 [[Fin 1], [Fin 2]]) (double_array 1 [[Fin 1], [Fin 3]]) 1) ! 0)
          (abs_err_norm_max (state_after default_args
              (double_array 1 [[Fin 1], [Fin 2]]) (double_array 1 [[Fin 1], [Fin 3]]) 2) ! 0)"
proof -
  let ?a = "double_array 1 [[Fin 1], [Fin 2]]" and ?b = "double_array 1 [[Fin 1], [Fin 3]]"
  have shape: "shape_compatible ?a ?b"
    by (simp add: shape_compatible_def double_array_def)
  have bound: "GetNumberOfTuples ?a \<le> INT_MAX"
    by (simp add: double_array_def INT_MAX_def)
  have fin: "finite_data ?a" "finite_data ?b"
    by (simp_all add: finite_data_def double_array_def less_Suc_eq)
  have k: "2 \<le> GetNumberOfTuples ?a * GetNumberOfComponents ?a"
    by (simp add: double_array_def)
  have nc: "GetNumberOfComponents ?a = 1"
    by (simp add: double_array_def)
  note inv = scan_invariant [OF shape bound k, of default_args]
  have "map length (norm_vectors (state_after default_args ?a ?b 2)) = [1, 1, 1, 1, 1, 1]"
    using inv [THEN conjunct1] unfolding nc
    by (simp add: norm_vectors_def del: state_after.simps)
  moreover have "\<forall>v \<in> set (norm_vectors (state_after default_args ?a ?b 2)).
      \<forall>x \<in> set v. dle (Fin 0) x"
    using inv fin by blast
  then have "list_all (dle (Fin 0))
      (concat (norm_vectors (state_after default_args ?a ?b 2)))"
    by (simp add: list_all_iff del: state_after.simps)
  moreover have "dle (abs_err_norm_max (state_after default_args ?a ?b 1) ! 0)
      (abs_err_norm_max (state_after default_args ?a ?b 2) ! 0)"
    using inv [THEN conjunct2, THEN conjunct2, THEN conjunct2, THEN conjunct2,
        THEN conjunct1, rule_format, of 1 0]
    unfolding nc by simp
  ultimately show ?thesis
    using shape bound fin by blast
qed

text \<open>
  Without the restriction to finite components an entry can fail to be non-negative: in
  the scan of the one-component arrays \<open>[NaN]\<close> and \<open>[1]\<close> the entry of
  \<open>abs_err_norm_l1\<close> is a NaN after the one pass, and \<open>0 \<le> NaN\<close> is false.
\<close>

theorem scan_invariant_counterexample:
  "shape_compatible (double_array 1 [[NaN]]) (double_array 1 [[Fin 1]])
   \<and> GetNumberOfTuples (double_array 1 [[NaN]]) \<le> INT_MAX
   \<and> scan default_args (double_array 1 [[NaN]]) (double_array 1 [[Fin 1]])
       = state_after default_args (double_array 1 [[NaN]]) (double_array 1 [[Fin 1]]) 1
   \<and> abs_err_norm_l1
        (state_after default_args (double_array 1 [[NaN]]) (double_array 1 [[Fin 1]]) 1)
       = [NaN]
   \<and> \<not> dle (Fin 0)
        (abs_err_norm_l1
          (state_after default_args (double_array 1 [[NaN]]) (double_array 1 [[Fin 1]]) 1)
         ! 0)"
proof -
  let ?a = "double_array 1 [[NaN]]" and ?b = "double_array 1 [[Fin 1]]"
  have "shape_compatible ?a ?b" and "GetNumberOfTuples ?a \<le> INT_MAX"
    by (simp_all add: shape_compatible_def double_array_def INT_MAX_def)
  moreover have "scan default_args ?a ?b = state_after default_args ?a ?b 1"
    by (simp add: scan_state_after double_array_def)
  moreover have l1: "abs_err_norm_l1 (state_after default_args ?a ?b 1) = [NaN]"
    by (simp add: double_array_def component_body_fields initial_state_def abs_err_def
        dsub_def)
  moreover have "\<not> dle (Fin 0) (abs_err_norm_l1 (state_after default_args ?a ?b 1) ! 0)"
    unfolding l1 by (simp add: dle_def)
  ultimately show ?thesis by blast
qed

section \<open>Arrays without components\<close>

text \<open>
  C9.  When two numeric arrays of the same shape have no components, the six vectors are
  empty and the decision dereferences the past-the-end iterator that
  \<open>std::max_element\<close> returns for an empty range: the run has no defined behaviour.
  With at least one component that does not happen: both maxima exist and the run ends
  with an exit status.  (The arrays have at most \<open>INT_MAX\<close> tuples, so that the loop
  counter does not overflow.)
\<close>

theorem verdict_needs_a_component:
  assumes "stringEndsWith (vtk_input_a args) ''.vtu''"
      and "shape_compatible a b"
      and "GetNumberOfTuples a \<le> INT_MAX"
  shows "(GetNumberOfComponents a = 0 \<longrightarrow>
            max_element (abs_err_norm_max (scan args a b)) = None
          \<and> main args (Some (a, b)) = Inl Undefined_behaviour)
       \<and> (0 < GetNumberOfComponents a \<longrightarrow>
            (\<exists>m. max_element (abs_err_norm_max (scan args a b)) = Some m)
          \<and> (\<exists>m. max_element (rel_err_norm_max (scan args a b)) = Some m)
          \<and> (\<exists>r. main args (Some (a, b)) = Inr r))"
proof (intro conjI impI)
  assume "GetNumberOfComponents a = 0"
  then have "abs_err_norm_max (scan args a b) = []"
    using length_state_after(3) [of args a b "GetNumberOfTuples a * GetNumberOfComponents a"]
    by (simp add: scan_state_after)
  then show none: "max_element (abs_err_norm_max (scan args a b)) = None"
    by (simp add: max_element_def)
  then show "main args (Some (a, b)) = Inl Undefined_behaviour"
    by (simp add: main_compatible [OF assms(1,2)] verdict_def)
next
  assume pos: "0 < GetNumberOfComponents a"
  obtain m_abs m_rel where m: "max_element (abs_err_norm_max (scan args a b)) = Some m_abs"
      "max_element (rel_err_norm_max (scan args a b)) = Some m_rel"
    using scan_maxima [OF pos, of args b] by blast
  then show "\<exists>m. max_element (abs_err_norm_max (scan args a b)) = Some m"
    and "\<exists>m. max_element (rel_err_norm_max (scan args a b)) = Some m"
    by simp_all
  obtain msg st where "verdict args (scan args a b) = Inr (st, msg)"
    using verdict_of_maxima [OF m, of args] by blast
  then show "\<exists>r. main args (Some (a, b)) = Inr r"
    by (simp add: main_compatible [OF assms(1,2)])
qed

theorem verdict_needs_a_component_witness:
  "stringEndsWith (vtk_input_a default_args) ''.vtu''
   \<and> shape_compatible (double_array 0 [[], []]) (double_array 0 [[], []])
   \<and> GetNumberOfComponents (double_array 0 [[], []]) = 0
   \<and> GetNumberOfTuples (double_array 0 [[], []]) \<le> INT_MAX
   \<and> main default_args (Some (double_array 0 [[], []], double_array 0 [[], []]))
       = Inl Undefined_behaviour
   \<and> shape_compatible (double_array 1 [[Fin 1]]) (double_array 1 [[Fin 3]])
   \<and> 0 < GetNumberOfComponents (double_array 1 [[Fin 1]])
   \<and> GetNumberOfTuples (double_array 1 [[Fin 1]]) \<le> INT_MAX
   \<and> (\<exists>r. main default_args (Some (double_array 1 [[Fin 1]], double_array 1 [[Fin 3]]))
           = Inr r)"
proof -
  let ?e = "double_array 0 [[], []]"
  let ?a = "double_array 1 [[Fin 1]]" and ?b = "double_array 1 [[Fin 3]]"
  have vtu: "stringEndsWith (vtk_input_a default_args) ''.vtu''"
    by (simp add: stringEndsWith_def default_args_def)
  have e: "shape_compatible ?e ?e" "GetNumberOfComponents ?e = 0"
      "GetNumberOfTuples ?e \<le> INT_MAX"
    and ab: "shape_compatible ?a ?b" "0 < GetNumberOfComponents ?a"
      "GetNumberOfTuples ?a \<le> INT_MAX"
    by (simp_all add: double_array_def shape_compatible_def INT_MAX_def)
  show ?thesis
    using vtu e ab verdict_needs_a_component [OF vtu e(1) e(3)]
      verdict_needs_a_component [OF vtu ab(1) ab(3)]
    by blast
qed

section \<open>Arrays without tuples\<close>

text \<open>
  C10.  For two numeric arrays of the same shape with no tuples and at least one
  component the scan makes no pass: it ends in the state it starts in, with the six
  vectors of norms all zero, and for thresholds \<open>abs_err_thr \<ge> 0\<close> and
  \<open>rel_err_thr \<ge> 0\<close> the run exits with success status.
\<close>

theorem no_tuples_passes:
  assumes "stringEndsWith (vtk_input_a args) ''.vtu''"
      and "shape_compatible a b"
      and "GetNumberOfTuples a = 0" and "0 < GetNumberOfComponents a"
      and "dle (Fin 0) (abs_err_thr args)" and "dle (Fin 0) (rel_err_thr args)"
  shows "scan args a b = initial_state (GetNumberOfComponents a)
       \<and> (\<forall>v \<in> set (norm_vectors (scan args a b)).
             v = replicate (GetNumberOfComponents a) (Fin 0))
       \<and> (\<exists>out. main args (Some (a, b)) =
             Inr \<lparr>status = EXIT_SUCCESS, stdout = out, stderr = []\<rparr>)"
proof -
  have s: "scan args a b = initial_state (GetNumberOfComponents a)"
    by (simp add: scan_state_after assms(3))
  have "verdict args (scan args a b) = Inr (EXIT_SUCCESS, [])"
    using _ assms(4,5) by (rule verdict_zero) (simp add: s initial_state_def)
  then have "\<exists>out. main args (Some (a, b)) =
      Inr \<lparr>status = EXIT_SUCCESS, stdout = out, stderr = []\<rparr>"
    by (simp add: main_compatible [OF assms(1,2)])
  then show ?thesis
    by (simp add: s norm_vectors_def initial_state_def)
qed

theorem no_tuples_passes_witness:
  "stringEndsWith (vtk_input_a default_args) ''.vtu''
   \<and> shape_compatible (double_array 2 []) (double_array 2 [])
   \<and> GetNumberOfTuples (double_array 2 []) = 0
   \<and> 0 < GetNumberOfComponents (double_array 2 [])
   \<and> dle (Fin 0) (abs_err_thr default_args)
   \<and> dle (Fin 0) (rel_err_thr default_args)
   \<and> norm_vectors (scan default_args (double_array 2 []) (double_array 2 []))
      = [[Fin 0, Fin 0], [Fin 0, Fin 0], [Fin 0, Fin 0],
         [Fin 0, Fin 0], [Fin 0, Fin 0], [Fin 0, Fin 0]]
   \<and> (\<exists>out. main default_args (Some (double_array 2 [], double_array 2 [])) =
        Inr \<lparr>status = EXIT_SUCCESS, stdout = out, stderr = []\<rparr>)"
proof -
  let ?a = "double_array 2 []"
  have h: "stringEndsWith (vtk_input_a default_args) ''.vtu''" "shape_compatible ?a ?a"
    "GetNumberOfTuples ?a = 0" "0 < GetNumberOfComponents ?a"
    "dle (Fin 0) (abs_err_thr default_args)" "dle (Fin 0) (rel_err_thr default_args)"
    by (simp_all add: stringEndsWith_def default_args_def double_array_def
        shape_compatible_def dle_def)
  have nc: "GetNumberOfComponents ?a = 2"
    by (simp add: double_array_def)
  note nt = no_tuples_passes [OF h]
  have "norm_vectors (scan default_args ?a ?a)
      = [[Fin 0, Fin 0], [Fin 0, Fin 0], [Fin 0, Fin 0],
         [Fin 0, Fin 0], [Fin 0, Fin 0], [Fin 0, Fin 0]]"
    using nt [THEN conjunct2, THEN conjunct1] unfolding nc
    by (simp add: norm_vectors_def numeral_2_eq_2)
  with h nt show ?thesis by blast
qed

end
